theory Spec2Isabelle
  imports Complex_Main "HOL-Library.Word"
begin

section \<open>Values shared by all modules\<close>

text \<open>
  A Node \<open>Buffer\<close> is a sequence of bytes.  Every value the code throws is a
  JavaScript \<open>Error\<close> object; the handlers read nothing of it but its \<open>message\<close>.
\<close>

type_synonym buffer = "8 word list"

datatype error = Error (message: string)

datatype log_entry = ConsoleError string error

definition quoted :: "string \<Rightarrow> string" where
  "quoted s = CHR 0x27 # s @ [CHR 0x27]"

section \<open>Node's \<open>path\<close> module (POSIX variant)\<close>

text \<open>
  \<open>segments\<close> cuts a path at every \<open>/\<close>; \<open>unsegments\<close> puts the pieces back
  together with one \<open>/\<close> between neighbours.
\<close>

fun segments :: "string \<Rightarrow> string list" where
  "segments [] = [[]]"
| "segments (c # cs) =
     (if c = CHR ''/'' then [] # segments cs
      else (case segments cs of [] \<Rightarrow> [[c]] | s # ss \<Rightarrow> (c # s) # ss))"

fun unsegments :: "string list \<Rightarrow> string" where
  "unsegments [] = []"
| "unsegments [s] = s"
| "unsegments (s # t # ss) = s @ CHR ''/'' # unsegments (t # ss)"

text \<open>
  \<open>normalizeString\<close> of Node: empty segments and \<open>.\<close> are dropped, \<open>..\<close> removes the
  segment before it unless that one is itself \<open>..\<close> or there is none, in which case it is
  kept only when the path may climb above its start.  The second argument is the result so
  far, last segment first.
\<close>

fun normalizeString :: "bool \<Rightarrow> string list \<Rightarrow> string list \<Rightarrow> string list" where
  "normalizeString allowAboveRoot res [] = rev res"
| "normalizeString allowAboveRoot res (s # ss) =
     (if s = [] \<or> s = ''.'' then normalizeString allowAboveRoot res ss
      else if s = ''..'' then
        (case res of
           [] \<Rightarrow> normalizeString allowAboveRoot (if allowAboveRoot then [''..''] else []) ss
         | r # rs \<Rightarrow>
             if r = ''..''
             then normalizeString allowAboveRoot (if allowAboveRoot then ''..'' # res else res) ss
             else normalizeString allowAboveRoot rs ss)
      else normalizeString allowAboveRoot (s # res) ss)"

definition isAbsolute :: "string \<Rightarrow> bool" where
  "isAbsolute p = (case p of [] \<Rightarrow> False | c # _ \<Rightarrow> c = CHR ''/'')"

definition normalize :: "string \<Rightarrow> string" where
  "normalize p =
     (if p = [] then ''.''
      else
        let trailingSeparator = (last p = CHR ''/'');
            q = unsegments (normalizeString (\<not> isAbsolute p) [] (segments p))
        in if q = [] then
             (if isAbsolute p then ''/'' else if trailingSeparator then ''./'' else ''.'')
           else (if isAbsolute p then ''/'' else []) @ q @ (if trailingSeparator then ''/'' else []))"

text \<open>\<open>path.join\<close> with two arguments: empty arguments are skipped.\<close>

definition path_join :: "string \<Rightarrow> string \<Rightarrow> string" where
  "path_join a b =
     (let joined = (if a = [] then b else if b = [] then a else a @ CHR ''/'' # b)
      in if joined = [] then ''.'' else normalize joined)"

text \<open>
  \<open>path.dirname\<close>: scanning from the end down to index 1, trailing slashes are skipped,
  then the last segment; the path is cut at the slash found there.
\<close>

definition dirname :: "string \<Rightarrow> string" where
  "dirname p =
     (if p = [] then ''.''
      else
        let hasRoot = (hd p = CHR ''/'');
            r = dropWhile (\<lambda>c. c \<noteq> CHR ''/'') (dropWhile (\<lambda>c. c = CHR ''/'') (rev (tl p)));
            end = length r
        in if r = [] then (if hasRoot then ''/'' else ''.'')
           else if hasRoot \<and> end = 1 then ''//''
           else take end p)"

text \<open>
  What \<open>normalize\<close> keeps of a path: its segments after \<open>normalizeString\<close>.  A list of
  segments, last first, is \<open>settled\<close> when \<open>normalizeString\<close> has nothing left to do on it:
  no segment is empty or \<open>.\<close>, and \<open>..\<close> stands only at the bottom, and only where the path
  may climb above its start.
\<close>

definition stack_of :: "string \<Rightarrow> string list" where
  "stack_of x = normalizeString (\<not> isAbsolute x) [] (segments x)"

fun settled :: "bool \<Rightarrow> string list \<Rightarrow> bool" where
  "settled allow [] = True"
| "settled allow (s # below) =
     (s \<noteq> [] \<and> s \<noteq> ''.'' \<and> (s = ''..'' \<longrightarrow> allow \<and> (\<forall>t\<in>set below. t = ''..''))
      \<and> settled allow below)"

section \<open>The file system\<close>

text \<open>
  The file system is the part of the environment the code changes.  Locations are
  absolute lists of segments; the root is the empty list and always a directory.
  \<open>fault\<close> stands for everything that makes a system call fail on a location that
  would otherwise be fine (permissions, a full disk, an I/O error): it gives the error's
  code and description.  Symbolic links are not modelled.
\<close>

datatype syscall = OpenRead | OpenWrite | MakeDir

record filesystem =
  files :: "string list \<rightharpoonup> buffer"
  dirs :: "string list set"
  fault :: "syscall \<Rightarrow> string list \<Rightarrow> string option"

definition is_dir :: "filesystem \<Rightarrow> string list \<Rightarrow> bool" where
  "is_dir fsys loc = (loc = [] \<or> loc \<in> dirs fsys)"

definition is_file :: "filesystem \<Rightarrow> string list \<Rightarrow> bool" where
  "is_file fsys loc = (\<not> is_dir fsys loc \<and> files fsys loc \<noteq> None)"

text \<open>
  Path resolution as the operating system does it: every segment is looked up in the
  location reached so far, which must be a directory; an empty segment and \<open>.\<close> stay
  there, \<open>..\<close> goes to the parent.
\<close>

fun walk :: "filesystem \<Rightarrow> string list \<Rightarrow> string list \<Rightarrow> string + string list" where
  "walk fsys cur [] = Inr cur"
| "walk fsys cur (s # ss) =
     (if \<not> is_dir fsys cur then
        Inl (if is_file fsys cur then ''ENOTDIR: not a directory''
             else ''ENOENT: no such file or directory'')
      else if s = [] \<or> s = ''.'' then walk fsys cur ss
      else if s = ''..'' then walk fsys (butlast cur) ss
      else walk fsys (cur @ [s]) ss)"

definition start_of :: "string \<Rightarrow> string \<Rightarrow> string list" where
  "start_of cwd p = (if isAbsolute p then [] else filter (\<lambda>s. s \<noteq> []) (segments cwd))"

definition resolve :: "string \<Rightarrow> filesystem \<Rightarrow> string \<Rightarrow> string + string list" where
  "resolve cwd fsys p =
     (if p = [] then Inl ''ENOENT: no such file or directory''
      else if CHR 0x00 \<in> set p then Inl ''ERR_INVALID_ARG_VALUE: path with null bytes''
      else walk fsys (start_of cwd p) (segments p))"

text \<open>
  The location a path names when every directory on the way exists: the walk without the
  look-ups.
\<close>

fun lexical :: "string list \<Rightarrow> string list \<Rightarrow> string list" where
  "lexical cur [] = cur"
| "lexical cur (s # ss) =
     (if s = [] \<or> s = ''.'' then lexical cur ss
      else if s = ''..'' then lexical (butlast cur) ss
      else lexical (cur @ [s]) ss)"

definition location :: "string \<Rightarrow> string \<Rightarrow> string list" where
  "location cwd p = lexical (start_of cwd p) (segments p)"

definition fs_error :: "string \<Rightarrow> string \<Rightarrow> string \<Rightarrow> error" where
  "fs_error code call p = Error (code @ '', '' @ call @ '' '' @ quoted p)"

definition existsSync :: "string \<Rightarrow> filesystem \<Rightarrow> string \<Rightarrow> bool" where
  "existsSync cwd fsys p =
     (case resolve cwd fsys p of
        Inl _ \<Rightarrow> False
      | Inr loc \<Rightarrow> is_dir fsys loc \<or> files fsys loc \<noteq> None)"

definition readFile :: "string \<Rightarrow> filesystem \<Rightarrow> string \<Rightarrow> error + buffer" where
  "readFile cwd fsys p =
     (case resolve cwd fsys p of
        Inl code \<Rightarrow> Inl (fs_error code ''open'' p)
      | Inr loc \<Rightarrow>
          if is_dir fsys loc then Inl (Error ''EISDIR: illegal operation on a directory, read'')
          else (case files fsys loc of
                  None \<Rightarrow> Inl (fs_error ''ENOENT: no such file or directory'' ''open'' p)
                | Some data \<Rightarrow>
                    (case fault fsys OpenRead loc of
                       Some code \<Rightarrow> Inl (fs_error code ''open'' p)
                     | None \<Rightarrow> Inr data)))"

definition writeFile :: "string \<Rightarrow> filesystem \<Rightarrow> string \<Rightarrow> buffer \<Rightarrow> error + filesystem" where
  "writeFile cwd fsys p data =
     (case resolve cwd fsys p of
        Inl code \<Rightarrow> Inl (fs_error code ''open'' p)
      | Inr loc \<Rightarrow>
          if is_dir fsys loc
          then Inl (fs_error ''EISDIR: illegal operation on a directory'' ''open'' p)
          else (case fault fsys OpenWrite loc of
                  Some code \<Rightarrow> Inl (fs_error code ''open'' p)
                | None \<Rightarrow> Inr (fsys\<lparr>files := (files fsys)(loc \<mapsto> data)\<rparr>)))"

text \<open>
  \<open>mkdir\<close> with \<open>recursive: true\<close>: directories that exist are passed through, missing
  ones are created one after the other; a file in the way or a fault stops it, and what
  was created before stays.
\<close>

fun mkdirp :: "filesystem \<Rightarrow> string list \<Rightarrow> string list \<Rightarrow> string option \<times> filesystem" where
  "mkdirp fsys cur [] = (None, fsys)"
| "mkdirp fsys cur (s # ss) =
     (if s = [] \<or> s = ''.'' then mkdirp fsys cur ss
      else if s = ''..'' then mkdirp fsys (butlast cur) ss
      else if is_dir fsys (cur @ [s]) then mkdirp fsys (cur @ [s]) ss
      else if files fsys (cur @ [s]) \<noteq> None
      then (Some (if ss = [] then ''EEXIST: file already exists'' else ''ENOTDIR: not a directory''), fsys)
      else (case fault fsys MakeDir (cur @ [s]) of
              Some code \<Rightarrow> (Some code, fsys)
            | None \<Rightarrow> mkdirp (fsys\<lparr>dirs := insert (cur @ [s]) (dirs fsys)\<rparr>) (cur @ [s]) ss))"

definition mkdir_recursive :: "string \<Rightarrow> filesystem \<Rightarrow> string \<Rightarrow> error option \<times> filesystem" where
  "mkdir_recursive cwd fsys p =
     (if p = [] then (Some (fs_error ''ENOENT: no such file or directory'' ''mkdir'' p), fsys)
      else if CHR 0x00 \<in> set p
      then (Some (fs_error ''ERR_INVALID_ARG_VALUE: path with null bytes'' ''mkdir'' p), fsys)
      else (case mkdirp fsys (start_of cwd p) (segments p) of
              (Some code, fsys') \<Rightarrow> (Some (fs_error code ''mkdir'' p), fsys')
            | (None, fsys') \<Rightarrow> (None, fsys')))"

text \<open>
  The directories \<open>mkdirp\<close> passes through or creates on its way, in order: one for
  every segment that is a name.  \<open>may_hold_dir\<close> says that a location is a directory
  already, or is free and may be created.  In a \<open>tree_shaped\<close> file system every
  directory lies in a directory.  A \<open>plain\<close> name is a file name: not empty, not a dot
  segment, without a slash.
\<close>

fun stations :: "string list \<Rightarrow> string list \<Rightarrow> string list list" where
  "stations cur [] = []"
| "stations cur (s # ss) =
     (if s = [] \<or> s = ''.'' then stations cur ss
      else if s = ''..'' then stations (butlast cur) ss
      else (cur @ [s]) # stations (cur @ [s]) ss)"

definition may_hold_dir :: "filesystem \<Rightarrow> string list \<Rightarrow> bool" where
  "may_hold_dir fsys loc =
     (is_dir fsys loc \<or> (files fsys loc = None \<and> fault fsys MakeDir loc = None))"

definition tree_shaped :: "filesystem \<Rightarrow> bool" where
  "tree_shaped fsys = (\<forall>d\<in>dirs fsys. is_dir fsys (butlast d))"

definition plain :: "string \<Rightarrow> bool" where
  "plain n = (n \<noteq> [] \<and> n \<noteq> ''.'' \<and> n \<noteq> ''..'' \<and> CHR ''/'' \<notin> set n)"

section \<open>Decoded JSON\<close>

text \<open>
  The values \<open>JSON.parse\<close> returns, and the request bodies \<open>JSON.stringify\<close> is given.
  An object is the list of its properties.  A property that is missing reads as
  \<open>undefined\<close>, which is \<open>None\<close> here.
\<close>

datatype json =
    JNull
  | JBool bool
  | JNumber rat
  | JString string
  | JArray "json list"
  | JObject "(string \<times> json) list"

text \<open>
  What \<open>client.send\<close> followed by decoding and parsing the body comes to: the call is
  rejected, the body is not JSON (\<open>JSON.parse\<close> throws), or a value is decoded.
\<close>

datatype reply = Rejected error | NotJson error | Decoded json

text \<open>
  \<open>v.name\<close> for a name that no prototype defines (\<open>images\<close> and \<open>image\<close> are such
  names), on a value other than \<open>null\<close>: only an object can have the property.
\<close>

definition property :: "json \<Rightarrow> string \<Rightarrow> json option" where
  "property v name = (case v of JObject kvs \<Rightarrow> map_of kvs name | _ \<Rightarrow> None)"

text \<open>\<open>x?.[0]\<close>: \<open>undefined\<close> for \<open>undefined\<close> and \<open>null\<close>, else the property \<open>0\<close>.\<close>

definition first_element :: "json option \<Rightarrow> json option" where
  "first_element x =
     (case x of
        None \<Rightarrow> None
      | Some JNull \<Rightarrow> None
      | Some (JBool _) \<Rightarrow> None
      | Some (JNumber _) \<Rightarrow> None
      | Some (JString s) \<Rightarrow> (case s of [] \<Rightarrow> None | c # _ \<Rightarrow> Some (JString [c]))
      | Some (JArray vs) \<Rightarrow> (case vs of [] \<Rightarrow> None | v # _ \<Rightarrow> Some v)
      | Some (JObject kvs) \<Rightarrow> map_of kvs ''0'')"

definition truthy :: "json option \<Rightarrow> bool" where
  "truthy x =
     (case x of
        None \<Rightarrow> False
      | Some JNull \<Rightarrow> False
      | Some (JBool b) \<Rightarrow> b
      | Some (JNumber n) \<Rightarrow> n \<noteq> 0
      | Some (JString s) \<Rightarrow> s \<noteq> []
      | Some (JArray _) \<Rightarrow> True
      | Some (JObject _) \<Rightarrow> True)"

definition or_else :: "json option \<Rightarrow> json option \<Rightarrow> json option" where
  "or_else a b = (if truthy a then a else b)"

section \<open>The environment and the state of the process\<close>

text \<open>
  What the process cannot decide is a parameter: the working directory and platform it
  was started on, the values \<open>crypto.randomUUID\<close> draws (by the number of the draw),
  what the callback of \<open>child_process.exec\<close> receives for a command, what the remote
  model answers to the request with a given number and body, and Node's
  \<open>Buffer.from(v, 'base64')\<close> and \<open>buf.toString('base64')\<close>.
\<close>

record env =
  cwd :: string
  platform :: string
  randomUUID :: "nat \<Rightarrow> string"
  exec_error :: "string \<Rightarrow> error option"
  send :: "nat \<Rightarrow> json \<Rightarrow> reply"
  buffer_from_base64 :: "json \<Rightarrow> error + buffer"
  to_base64 :: "buffer \<Rightarrow> string"

text \<open>
  The state: the file system, the module-level \<open>imageCache\<close>, the number of identifiers
  drawn so far, the request bodies sent to the remote model, the commands handed to
  \<open>exec\<close>, and what was written to \<open>console.error\<close>.
\<close>

record world =
  fs :: filesystem
  imageCache :: "string \<rightharpoonup> buffer"
  draws :: nat
  requests :: "json list"
  spawned :: "string list"
  console :: "log_entry list"

definition log_error :: "string \<Rightarrow> error \<Rightarrow> world \<Rightarrow> world" where
  "log_error label e w = w\<lparr>console := console w @ [ConsoleError label e]\<rparr>"

section \<open>utils/image.ts\<close>

record ImageResponse =
  imageId :: string
  imagePath :: string
  url :: string

definition imagesDir :: "env \<Rightarrow> string" where
  "imagesDir E = path_join (cwd E) ''images''"

text \<open>
  \<open>getImage\<close>: the cache first, then the file \<open>imagesDir/<imageId>.png\<close>, which is put
  into the cache; any failure of the read is logged and replaced by the not-found error.
\<close>

definition getImage :: "env \<Rightarrow> string \<Rightarrow> world \<Rightarrow> (error + buffer) \<times> world" where
  "getImage E ident w =
     (case imageCache w ident of
        Some data \<Rightarrow> (Inr data, w)
      | None \<Rightarrow>
          (case readFile (cwd E) (fs w) (path_join (imagesDir E) (ident @ ''.png'')) of
             Inr imageData \<Rightarrow> (Inr imageData, w\<lparr>imageCache := (imageCache w)(ident \<mapsto> imageData)\<rparr>)
           | Inl e \<Rightarrow>
               (Inl (Error (''Image '' @ ident @ '' not found'')),
                log_error (''Error retrieving image '' @ ident @ '':'') e w)))"

definition effective_path :: "env \<Rightarrow> string \<Rightarrow> string \<Rightarrow> string" where
  "effective_path E ident outputPath =
     (if outputPath \<noteq> [] then outputPath else path_join (imagesDir E) (ident @ ''.png''))"

definition open_command :: "env \<Rightarrow> string \<Rightarrow> string" where
  "open_command E p =
     (if platform E = ''win32'' then ''start '' @ p
      else if platform E = ''darwin'' then ''open '' @ p
      else ''xdg-open '' @ p)"

text \<open>
  \<open>saveImage\<close>: draws the identifier, resolves the path, creates the directory when
  \<open>existsSync\<close> does not find it, writes the file, fills the cache, and hands the viewer
  command to \<open>exec\<close> when asked to.  An error of \<open>mkdir\<close> or \<open>writeFile\<close> is logged and
  thrown again.  \<open>exec\<close> starts the command and returns; what becomes of the launch is
  told to its callback, which runs later (\<open>exec_callback\<close>).
\<close>

definition saveImage ::
    "env \<Rightarrow> buffer \<Rightarrow> bool \<Rightarrow> string \<Rightarrow> world \<Rightarrow> (error + ImageResponse) \<times> world" where
  "saveImage E imageBytes openBrowser outputPath w =
     (let ident = randomUUID E (draws w);
          w1 = w\<lparr>draws := Suc (draws w)\<rparr>;
          p = effective_path E ident outputPath;
          dir = dirname p;
          (made, fs1) = (if \<not> existsSync (cwd E) (fs w1) dir
                         then mkdir_recursive (cwd E) (fs w1) dir else (None, fs w1));
          w2 = w1\<lparr>fs := fs1\<rparr>
      in case made of
           Some e \<Rightarrow> (Inl e, log_error ''Error saving image:'' e w2)
         | None \<Rightarrow>
             (case writeFile (cwd E) (fs w2) p imageBytes of
                Inl e \<Rightarrow> (Inl e, log_error ''Error saving image:'' e w2)
              | Inr fs2 \<Rightarrow>
                  let w3 = w2\<lparr>fs := fs2, imageCache := (imageCache w2)(ident \<mapsto> imageBytes)\<rparr>;
                      response = \<lparr>imageId = ident, imagePath = p, url = ''file://'' @ p\<rparr>;
                      w4 = (if openBrowser then w3\<lparr>spawned := spawned w3 @ [open_command E p]\<rparr>
                            else w3)
                  in (Inr response, w4)))"

definition exec_callback :: "env \<Rightarrow> string \<Rightarrow> world \<Rightarrow> world" where
  "exec_callback E command w =
     (case exec_error E command of
        None \<Rightarrow> w
      | Some e \<Rightarrow> log_error ''Error opening image:'' e w)"

text \<open>The start of the module: the default directory is created when it is missing.\<close>

definition load_image_module :: "env \<Rightarrow> filesystem \<Rightarrow> error + world" where
  "load_image_module E fsys =
     (let (made, fs1) = (if \<not> existsSync (cwd E) fsys (imagesDir E)
                         then mkdir_recursive (cwd E) fsys (imagesDir E) else (None, fsys))
      in case made of
           Some e \<Rightarrow> Inl e
         | None \<Rightarrow> Inr \<lparr>fs = fs1, imageCache = Map.empty, draws = 0, requests = [],
                       spawned = [], console = []\<rparr>)"

section \<open>utils/bedrock.ts\<close>

text \<open>
  \<open>generateImage\<close>: the body is sent; of the decoded answer the first element of
  \<open>images\<close> is taken, or \<open>image\<close> when that is falsy; without either the error
  \<open>No image data in response\<close> is thrown; else the value goes to \<open>Buffer.from\<close>.  Reading
  a property of \<open>null\<close> is a \<open>TypeError\<close>.  Every error is logged and thrown again.
\<close>

definition generateImage :: "env \<Rightarrow> json \<Rightarrow> world \<Rightarrow> (error + buffer) \<times> world" where
  "generateImage E body w =
     (let w1 = w\<lparr>requests := requests w @ [body]\<rparr>;
          result =
            (case send E (length (requests w)) body of
               Rejected e \<Rightarrow> Inl e
             | NotJson e \<Rightarrow> Inl e
             | Decoded responseBody \<Rightarrow>
                 if responseBody = JNull
                 then Inl (Error (''Cannot read properties of null (reading '' @ quoted ''images'' @ '')''))
                 else
                   let imageBase64 = or_else (first_element (property responseBody ''images''))
                                             (property responseBody ''image'')
                   in if \<not> truthy imageBase64 then Inl (Error ''No image data in response'')
                      else (case imageBase64 of
                              None \<Rightarrow> Inl (Error ''No image data in response'')
                            | Some v \<Rightarrow> buffer_from_base64 E v))
      in case result of
           Inl e \<Rightarrow> (Inl e, log_error ''Error generating image:'' e w1)
         | Inr imageBytes \<Rightarrow> (Inr imageBytes, w1))"

section \<open>The tool handlers\<close>

datatype content_item = TextContent string

record CallToolResult =
  content :: "content_item list"

definition text_result :: "string \<Rightarrow> CallToolResult" where
  "text_result t = \<lparr>content = [TextContent t]\<rparr>"

text \<open>
  All seven handlers end with the same two awaited calls and the same \<open>catch\<close>:
  \<open>generateImage\<close>, then \<open>saveImage\<close>, then the success text with the saved path; an error
  thrown anywhere in the \<open>try\<close> block is logged and becomes the text of the result.
\<close>

definition generate_then_save ::
    "env \<Rightarrow> json \<Rightarrow> bool \<Rightarrow> string \<Rightarrow> string \<Rightarrow> world \<Rightarrow> (error + CallToolResult) \<times> world" where
  "generate_then_save E body open_browser output_path saved w =
     (case generateImage E body w of
        (Inl e, w1) \<Rightarrow> (Inl e, w1)
      | (Inr imageBytes, w1) \<Rightarrow>
          (case saveImage E imageBytes open_browser output_path w1 of
             (Inl e, w2) \<Rightarrow> (Inl e, w2)
           | (Inr imageInfo, w2) \<Rightarrow> (Inr (text_result (saved @ imagePath imageInfo)), w2)))"

definition catch_as_text ::
    "string \<Rightarrow> string \<Rightarrow> (error + CallToolResult) \<times> world \<Rightarrow> CallToolResult \<times> world" where
  "catch_as_text label failed outcome =
     (case outcome of
        (Inr res, w) \<Rightarrow> (res, w)
      | (Inl e, w) \<Rightarrow> (text_result (failed @ message e), log_error label e w))"

definition imageGenerationConfig :: "rat \<Rightarrow> rat \<Rightarrow> rat \<Rightarrow> json" where
  "imageGenerationConfig height width cfg_scale =
     JObject [(''numberOfImages'', JNumber 1), (''height'', JNumber height),
              (''width'', JNumber width), (''cfgScale'', JNumber cfg_scale)]"

subsection \<open>text_to_image\<close>

record TextToImageParams =
  prompt :: string
  output_path :: string
  negative_prompt :: string
  height :: rat
  width :: rat
  num_images :: rat
  cfg_scale :: rat
  seed :: rat
  open_browser :: bool

definition textToImage_body :: "TextToImageParams \<Rightarrow> json" where
  "textToImage_body params =
     JObject [(''taskType'', JString ''TEXT_IMAGE''),
              (''textToImageParams'',
                 JObject [(''text'', JString (TextToImageParams.prompt params)),
                          (''negativeText'', JString (TextToImageParams.negative_prompt params))]),
              (''imageGenerationConfig'',
                 JObject [(''height'', JNumber (TextToImageParams.height params)),
                          (''width'', JNumber (TextToImageParams.width params)),
                          (''numberOfImages'', JNumber (TextToImageParams.num_images params)),
                          (''cfgScale'', JNumber (TextToImageParams.cfg_scale params)),
                          (''seed'', JNumber (TextToImageParams.seed params))])]"

definition textToImage_try :: "env \<Rightarrow> TextToImageParams \<Rightarrow> world \<Rightarrow> (error + CallToolResult) \<times> world" where
  "textToImage_try E params w =
     generate_then_save E (textToImage_body params) (TextToImageParams.open_browser params)
       (TextToImageParams.output_path params) ''Image generated successfully. Saved location: '' w"

definition textToImage :: "env \<Rightarrow> TextToImageParams \<Rightarrow> world \<Rightarrow> CallToolResult \<times> world" where
  "textToImage E params w =
     catch_as_text ''Error in text to image generation:'' ''Error occurred while generating image: ''
       (textToImage_try E params w)"

subsection \<open>inpainting\<close>

record InpaintingParams =
  image_path :: string
  prompt :: string
  mask_prompt :: string
  output_path :: string
  negative_prompt :: string
  height :: rat
  width :: rat
  cfg_scale :: rat
  open_browser :: bool

definition inpainting_body :: "InpaintingParams \<Rightarrow> string \<Rightarrow> json" where
  "inpainting_body params inputImage =
     JObject [(''taskType'', JString ''INPAINTING''),
              (''inpaintingParams'',
                 JObject [(''image'', JString inputImage),
                          (''text'', JString (InpaintingParams.prompt params)),
                          (''negativeText'', JString (InpaintingParams.negative_prompt params)),
                          (''maskPrompt'', JString (InpaintingParams.mask_prompt params))]),
              (''imageGenerationConfig'',
                 imageGenerationConfig (InpaintingParams.height params) (InpaintingParams.width params)
                   (InpaintingParams.cfg_scale params))]"

definition inpainting_try :: "env \<Rightarrow> InpaintingParams \<Rightarrow> world \<Rightarrow> (error + CallToolResult) \<times> world" where
  "inpainting_try E params w =
     (case readFile (cwd E) (fs w) (InpaintingParams.image_path params) of
        Inl e \<Rightarrow> (Inl e, w)
      | Inr imageBuffer \<Rightarrow>
          generate_then_save E (inpainting_body params (to_base64 E imageBuffer))
            (InpaintingParams.open_browser params) (InpaintingParams.output_path params)
            ''Inpainting completed successfully. Saved location: '' w)"

definition inpainting :: "env \<Rightarrow> InpaintingParams \<Rightarrow> world \<Rightarrow> CallToolResult \<times> world" where
  "inpainting E params w =
     catch_as_text ''Error in inpainting:'' ''Error occurred during inpainting: ''
       (inpainting_try E params w)"

subsection \<open>outpainting\<close>

record OutpaintingParams =
  prompt :: string
  output_path :: string
  image_path :: string
  mask_image_path :: string
  negative_prompt :: string
  height :: rat
  width :: rat
  outpainting_mode :: string
  cfg_scale :: rat
  open_browser :: bool

definition outpainting_body :: "OutpaintingParams \<Rightarrow> string \<Rightarrow> string \<Rightarrow> json" where
  "outpainting_body params inputImage maskImage =
     JObject [(''taskType'', JString ''OUTPAINTING''),
              (''outpaintingParams'',
                 JObject [(''image'', JString inputImage),
                          (''maskImage'', JString maskImage),
                          (''text'', JString (OutpaintingParams.prompt params)),
                          (''negativeText'', JString (OutpaintingParams.negative_prompt params)),
                          (''outpaintingMode'', JString (OutpaintingParams.outpainting_mode params))]),
              (''imageGenerationConfig'',
                 imageGenerationConfig (OutpaintingParams.height params) (OutpaintingParams.width params)
                   (OutpaintingParams.cfg_scale params))]"

definition outpainting_try :: "env \<Rightarrow> OutpaintingParams \<Rightarrow> world \<Rightarrow> (error + CallToolResult) \<times> world" where
  "outpainting_try E params w =
     (case readFile (cwd E) (fs w) (OutpaintingParams.image_path params) of
        Inl e \<Rightarrow> (Inl e, w)
      | Inr imageBuffer \<Rightarrow>
          (case readFile (cwd E) (fs w) (OutpaintingParams.mask_image_path params) of
             Inl e \<Rightarrow> (Inl e, w)
           | Inr maskBuffer \<Rightarrow>
               generate_then_save E
                 (outpainting_body params (to_base64 E imageBuffer) (to_base64 E maskBuffer))
                 (OutpaintingParams.open_browser params) (OutpaintingParams.output_path params)
                 ''Outpainting completed successfully. Saved location: '' w))"

definition outpainting :: "env \<Rightarrow> OutpaintingParams \<Rightarrow> world \<Rightarrow> CallToolResult \<times> world" where
  "outpainting E params w =
     catch_as_text ''Error in outpainting:'' ''Error occurred during outpainting: ''
       (outpainting_try E params w)"

subsection \<open>image_variation\<close>

record ImageVariationParams =
  image_paths :: "string list"
  prompt :: string
  negative_prompt :: string
  similarity_strength :: rat
  height :: rat
  width :: rat
  cfg_scale :: rat
  open_browser :: bool
  output_path :: string

text \<open>
  The loop over \<open>image_paths\<close>: each file is read and its base64 text appended to
  \<open>images\<close>; the first read that fails throws, and the loop is left.
\<close>

fun read_images :: "env \<Rightarrow> filesystem \<Rightarrow> string list \<Rightarrow> string list \<Rightarrow> error + string list" where
  "read_images E fsys [] images = Inr images"
| "read_images E fsys (p # rest) images =
     (case readFile (cwd E) fsys p of
        Inl e \<Rightarrow> Inl e
      | Inr imageBuffer \<Rightarrow> read_images E fsys rest (images @ [to_base64 E imageBuffer]))"

definition imageVariation_body :: "ImageVariationParams \<Rightarrow> string list \<Rightarrow> json" where
  "imageVariation_body params images =
     JObject [(''taskType'', JString ''IMAGE_VARIATION''),
              (''imageVariationParams'',
                 JObject [(''images'', JArray (map JString images)),
                          (''text'', JString (ImageVariationParams.prompt params)),
                          (''negativeText'', JString (ImageVariationParams.negative_prompt params)),
                          (''similarityStrength'',
                             JNumber (ImageVariationParams.similarity_strength params))]),
              (''imageGenerationConfig'',
                 imageGenerationConfig (ImageVariationParams.height params)
                   (ImageVariationParams.width params) (ImageVariationParams.cfg_scale params))]"

definition imageVariation_try ::
    "env \<Rightarrow> ImageVariationParams \<Rightarrow> world \<Rightarrow> (error + CallToolResult) \<times> world" where
  "imageVariation_try E params w =
     (case read_images E (fs w) (ImageVariationParams.image_paths params) [] of
        Inl e \<Rightarrow> (Inl e, w)
      | Inr images \<Rightarrow>
          generate_then_save E (imageVariation_body params images)
            (ImageVariationParams.open_browser params) (ImageVariationParams.output_path params)
            ''Image variation generated successfully. Saved location: '' w)"

definition imageVariation :: "env \<Rightarrow> ImageVariationParams \<Rightarrow> world \<Rightarrow> CallToolResult \<times> world" where
  "imageVariation E params w =
     catch_as_text ''Error in image variation:'' ''Error occurred during image variation: ''
       (imageVariation_try E params w)"

subsection \<open>image_conditioning\<close>

record ImageConditioningParams =
  image_path :: string
  prompt :: string
  output_path :: string
  negative_prompt :: string
  control_mode :: string
  height :: rat
  width :: rat
  cfg_scale :: rat
  open_browser :: bool

definition imageConditioning_body :: "ImageConditioningParams \<Rightarrow> string \<Rightarrow> json" where
  "imageConditioning_body params inputImage =
     JObject [(''taskType'', JString ''IMAGE_CONDITIONING''),
              (''imageConditioningParams'',
                 JObject [(''image'', JString inputImage),
                          (''text'', JString (ImageConditioningParams.prompt params)),
                          (''negativeText'', JString (ImageConditioningParams.negative_prompt params)),
                          (''controlMode'', JString (ImageConditioningParams.control_mode params))]),
              (''imageGenerationConfig'',
                 imageGenerationConfig (ImageConditioningParams.height params)
                   (ImageConditioningParams.width params) (ImageConditioningParams.cfg_scale params))]"

definition imageConditioning_try ::
    "env \<Rightarrow> ImageConditioningParams \<Rightarrow> world \<Rightarrow> (error + CallToolResult) \<times> world" where
  "imageConditioning_try E params w =
     (case readFile (cwd E) (fs w) (ImageConditioningParams.image_path params) of
        Inl e \<Rightarrow> (Inl e, w)
      | Inr imageBuffer \<Rightarrow>
          generate_then_save E (imageConditioning_body params (to_base64 E imageBuffer))
            (ImageConditioningParams.open_browser params) (ImageConditioningParams.output_path params)
            ''Image conditioning completed successfully. Saved location: '' w)"

definition imageConditioning ::
    "env \<Rightarrow> ImageConditioningParams \<Rightarrow> world \<Rightarrow> CallToolResult \<times> world" where
  "imageConditioning E params w =
     catch_as_text ''Error in image conditioning:'' ''Error occurred during image conditioning: ''
       (imageConditioning_try E params w)"

subsection \<open>color_guided_generation\<close>

record ColorGuidedGenerationParams =
  prompt :: string
  colors :: "string list"
  output_path :: string
  reference_image_path :: "string option"
  negative_prompt :: string
  height :: rat
  width :: rat
  cfg_scale :: rat
  open_browser :: bool

definition colorGuidedGeneration_body :: "ColorGuidedGenerationParams \<Rightarrow> string option \<Rightarrow> json" where
  "colorGuidedGeneration_body params referenceImage =
     JObject [(''taskType'', JString ''COLOR_GUIDED_GENERATION''),
              (''colorGuidedGenerationParams'',
                 JObject ([(''text'', JString (ColorGuidedGenerationParams.prompt params)),
                           (''negativeText'', JString (ColorGuidedGenerationParams.negative_prompt params)),
                           (''colors'', JArray (map JString (ColorGuidedGenerationParams.colors params)))]
                          @ (case referenceImage of
                               None \<Rightarrow> []
                             | Some encoded \<Rightarrow> [(''referenceImage'', JString encoded)]))),
              (''imageGenerationConfig'',
                 JObject [(''height'', JNumber (ColorGuidedGenerationParams.height params)),
                          (''width'', JNumber (ColorGuidedGenerationParams.width params)),
                          (''numberOfImages'', JNumber 1),
                          (''cfgScale'', JNumber (ColorGuidedGenerationParams.cfg_scale params))])]"

text \<open>The reference image is read only when its path is given and not the empty string.\<close>

definition colorGuidedGeneration_try ::
    "env \<Rightarrow> ColorGuidedGenerationParams \<Rightarrow> world \<Rightarrow> (error + CallToolResult) \<times> world" where
  "colorGuidedGeneration_try E params w =
     (let reference =
            (case ColorGuidedGenerationParams.reference_image_path params of
               None \<Rightarrow> Inr None
             | Some p \<Rightarrow>
                 if p = [] then Inr None
                 else (case readFile (cwd E) (fs w) p of
                         Inl e \<Rightarrow> Inl e
                       | Inr imageBuffer \<Rightarrow> Inr (Some (to_base64 E imageBuffer))))
      in case reference of
           Inl e \<Rightarrow> (Inl e, w)
         | Inr referenceImage \<Rightarrow>
             generate_then_save E (colorGuidedGeneration_body params referenceImage)
               (ColorGuidedGenerationParams.open_browser params)
               (ColorGuidedGenerationParams.output_path params)
               ''Color guided image generated successfully. Saved location: '' w)"

definition colorGuidedGeneration ::
    "env \<Rightarrow> ColorGuidedGenerationParams \<Rightarrow> world \<Rightarrow> CallToolResult \<times> world" where
  "colorGuidedGeneration E params w =
     catch_as_text ''Error in color guided generation:''
       ''Error occurred during color guided generation: ''
       (colorGuidedGeneration_try E params w)"

subsection \<open>background_removal\<close>

record BackgroundRemovalParams =
  image_path :: string
  output_path :: string
  open_browser :: bool

definition backgroundRemoval_body :: "string \<Rightarrow> json" where
  "backgroundRemoval_body inputImage =
     JObject [(''taskType'', JString ''BACKGROUND_REMOVAL''),
              (''backgroundRemovalParams'', JObject [(''image'', JString inputImage)])]"

definition backgroundRemoval_try ::
    "env \<Rightarrow> BackgroundRemovalParams \<Rightarrow> world \<Rightarrow> (error + CallToolResult) \<times> world" where
  "backgroundRemoval_try E params w =
     (case readFile (cwd E) (fs w) (BackgroundRemovalParams.image_path params) of
        Inl e \<Rightarrow> (Inl e, w)
      | Inr imageBuffer \<Rightarrow>
          generate_then_save E (backgroundRemoval_body (to_base64 E imageBuffer))
            (BackgroundRemovalParams.open_browser params) (BackgroundRemovalParams.output_path params)
            ''Background removed successfully. Saved location: '' w)"

definition backgroundRemoval ::
    "env \<Rightarrow> BackgroundRemovalParams \<Rightarrow> world \<Rightarrow> CallToolResult \<times> world" where
  "backgroundRemoval E params w =
     catch_as_text ''Error in background removal:'' ''Error occurred while removing background: ''
       (backgroundRemoval_try E params w)"

subsection \<open>server.ts: the registered tools\<close>

datatype tool_call =
    Text_to_image TextToImageParams
  | Inpainting InpaintingParams
  | Outpainting OutpaintingParams
  | Image_variation ImageVariationParams
  | Image_conditioning ImageConditioningParams
  | Color_guided_generation ColorGuidedGenerationParams
  | Background_removal BackgroundRemovalParams

fun call_tool :: "env \<Rightarrow> tool_call \<Rightarrow> world \<Rightarrow> CallToolResult \<times> world" where
  "call_tool E (Text_to_image params) w = textToImage E params w"
| "call_tool E (Inpainting params) w = inpainting E params w"
| "call_tool E (Outpainting params) w = outpainting E params w"
| "call_tool E (Image_variation params) w = imageVariation E params w"
| "call_tool E (Image_conditioning params) w = imageConditioning E params w"
| "call_tool E (Color_guided_generation params) w = colorGuidedGeneration E params w"
| "call_tool E (Background_removal params) w = backgroundRemoval E params w"

subsection \<open>The parts of a call\<close>

text \<open>
  What each handler does before it calls \<open>generateImage\<close>: it reads the input files it
  was given and builds the request body.  The other functions give the arguments it passes
  on and the texts it answers with.
\<close>

fun request_of :: "env \<Rightarrow> tool_call \<Rightarrow> filesystem \<Rightarrow> error + json" where
  "request_of E (Text_to_image params) fsys = Inr (textToImage_body params)"
| "request_of E (Inpainting params) fsys =
     (case readFile (cwd E) fsys (InpaintingParams.image_path params) of
        Inl e \<Rightarrow> Inl e
      | Inr imageBuffer \<Rightarrow> Inr (inpainting_body params (to_base64 E imageBuffer)))"
| "request_of E (Outpainting params) fsys =
     (case readFile (cwd E) fsys (OutpaintingParams.image_path params) of
        Inl e \<Rightarrow> Inl e
      | Inr imageBuffer \<Rightarrow>
          (case readFile (cwd E) fsys (OutpaintingParams.mask_image_path params) of
             Inl e \<Rightarrow> Inl e
           | Inr maskBuffer \<Rightarrow>
               Inr (outpainting_body params (to_base64 E imageBuffer) (to_base64 E maskBuffer))))"
| "request_of E (Image_variation params) fsys =
     (case read_images E fsys (ImageVariationParams.image_paths params) [] of
        Inl e \<Rightarrow> Inl e
      | Inr images \<Rightarrow> Inr (imageVariation_body params images))"
| "request_of E (Image_conditioning params) fsys =
     (case readFile (cwd E) fsys (ImageConditioningParams.image_path params) of
        Inl e \<Rightarrow> Inl e
      | Inr imageBuffer \<Rightarrow> Inr (imageConditioning_body params (to_base64 E imageBuffer)))"
| "request_of E (Color_guided_generation params) fsys =
     (case ColorGuidedGenerationParams.reference_image_path params of
        None \<Rightarrow> Inr (colorGuidedGeneration_body params None)
      | Some p \<Rightarrow>
          if p = [] then Inr (colorGuidedGeneration_body params None)
          else (case readFile (cwd E) fsys p of
                  Inl e \<Rightarrow> Inl e
                | Inr imageBuffer \<Rightarrow>
                    Inr (colorGuidedGeneration_body params (Some (to_base64 E imageBuffer)))))"
| "request_of E (Background_removal params) fsys =
     (case readFile (cwd E) fsys (BackgroundRemovalParams.image_path params) of
        Inl e \<Rightarrow> Inl e
      | Inr imageBuffer \<Rightarrow> Inr (backgroundRemoval_body (to_base64 E imageBuffer)))"

fun open_browser_of :: "tool_call \<Rightarrow> bool" where
  "open_browser_of (Text_to_image params) = TextToImageParams.open_browser params"
| "open_browser_of (Inpainting params) = InpaintingParams.open_browser params"
| "open_browser_of (Outpainting params) = OutpaintingParams.open_browser params"
| "open_browser_of (Image_variation params) = ImageVariationParams.open_browser params"
| "open_browser_of (Image_conditioning params) = ImageConditioningParams.open_browser params"
| "open_browser_of (Color_guided_generation params) = ColorGuidedGenerationParams.open_browser params"
| "open_browser_of (Background_removal params) = BackgroundRemovalParams.open_browser params"

fun output_path_of :: "tool_call \<Rightarrow> string" where
  "output_path_of (Text_to_image params) = TextToImageParams.output_path params"
| "output_path_of (Inpainting params) = InpaintingParams.output_path params"
| "output_path_of (Outpainting params) = OutpaintingParams.output_path params"
| "output_path_of (Image_variation params) = ImageVariationParams.output_path params"
| "output_path_of (Image_conditioning params) = ImageConditioningParams.output_path params"
| "output_path_of (Color_guided_generation params) = ColorGuidedGenerationParams.output_path params"
| "output_path_of (Background_removal params) = BackgroundRemovalParams.output_path params"

fun saved_text :: "tool_call \<Rightarrow> string" where
  "saved_text (Text_to_image _) = ''Image generated successfully. Saved location: ''"
| "saved_text (Inpainting _) = ''Inpainting completed successfully. Saved location: ''"
| "saved_text (Outpainting _) = ''Outpainting completed successfully. Saved location: ''"
| "saved_text (Image_variation _) = ''Image variation generated successfully. Saved location: ''"
| "saved_text (Image_conditioning _) = ''Image conditioning completed successfully. Saved location: ''"
| "saved_text (Color_guided_generation _) =
     ''Color guided image generated successfully. Saved location: ''"
| "saved_text (Background_removal _) = ''Background removed successfully. Saved location: ''"

fun failed_text :: "tool_call \<Rightarrow> string" where
  "failed_text (Text_to_image _) = ''Error occurred while generating image: ''"
| "failed_text (Inpainting _) = ''Error occurred during inpainting: ''"
| "failed_text (Outpainting _) = ''Error occurred during outpainting: ''"
| "failed_text (Image_variation _) = ''Error occurred during image variation: ''"
| "failed_text (Image_conditioning _) = ''Error occurred during image conditioning: ''"
| "failed_text (Color_guided_generation _) = ''Error occurred during color guided generation: ''"
| "failed_text (Background_removal _) = ''Error occurred while removing background: ''"

fun log_label :: "tool_call \<Rightarrow> string" where
  "log_label (Text_to_image _) = ''Error in text to image generation:''"
| "log_label (Inpainting _) = ''Error in inpainting:''"
| "log_label (Outpainting _) = ''Error in outpainting:''"
| "log_label (Image_variation _) = ''Error in image variation:''"
| "log_label (Image_conditioning _) = ''Error in image conditioning:''"
| "log_label (Color_guided_generation _) = ''Error in color guided generation:''"
| "log_label (Background_removal _) = ''Error in background removal:''"

section \<open>The life of the process\<close>

text \<open>
  \<open>reaches E w w'\<close>: the process gets from the state \<open>w\<close> to the state \<open>w'\<close> by any
  number of tool calls, calls of \<open>generateImage\<close>, \<open>saveImage\<close> and \<open>getImage\<close>, and
  callbacks of \<open>exec\<close>.
\<close>

inductive reaches :: "env \<Rightarrow> world \<Rightarrow> world \<Rightarrow> bool" for E :: env where
  here: "reaches E w w"
| tool: "reaches E w w1 \<Longrightarrow> call_tool E c w1 = (res, w2) \<Longrightarrow> reaches E w w2"
| sent: "reaches E w w1 \<Longrightarrow> generateImage E body w1 = (g, w2) \<Longrightarrow> reaches E w w2"
| save: "reaches E w w1 \<Longrightarrow> saveImage E b ob out w1 = (r, w2) \<Longrightarrow> reaches E w w2"
| load: "reaches E w w1 \<Longrightarrow> getImage E ident w1 = (d, w2) \<Longrightarrow> reaches E w w2"
| opened: "reaches E w w1 \<Longrightarrow> exec_callback E command w1 = w2 \<Longrightarrow> reaches E w w2"

section \<open>A concrete environment\<close>

text \<open>
  Base64 as Node reads and writes it.  Decoding skips every character outside the two
  alphabets and stops at the first \<open>=\<close>; encoding pads with \<open>=\<close>.
\<close>

definition sextet :: "char \<Rightarrow> nat option" where
  "sextet c =
     (let n = (of_char c :: nat)
      in if 65 \<le> n \<and> n \<le> 90 then Some (n - 65)
         else if 97 \<le> n \<and> n \<le> 122 then Some (n - 71)
         else if 48 \<le> n \<and> n \<le> 57 then Some (n + 4)
         else if c = CHR ''+'' \<or> c = CHR ''-'' then Some 62
         else if c = CHR ''/'' \<or> c = CHR ''_'' then Some 63
         else None)"

fun sextets_to_bytes :: "nat list \<Rightarrow> buffer" where
  "sextets_to_bytes (a # b # c # d # rest) =
     of_nat (a * 4 + b div 16) # of_nat ((b mod 16) * 16 + c div 4) # of_nat ((c mod 4) * 64 + d)
       # sextets_to_bytes rest"
| "sextets_to_bytes [a, b, c] = [of_nat (a * 4 + b div 16), of_nat ((b mod 16) * 16 + c div 4)]"
| "sextets_to_bytes [a, b] = [of_nat (a * 4 + b div 16)]"
| "sextets_to_bytes _ = []"

definition base64_decode :: "string \<Rightarrow> buffer" where
  "base64_decode s = sextets_to_bytes (List.map_filter sextet (takeWhile (\<lambda>c. c \<noteq> CHR ''='') s))"

definition base64_char :: "nat \<Rightarrow> char" where
  "base64_char n =
     (''ABCDEFGHIJKLMNOPQRSTUVWXYZabcdefghijklmnopqrstuvwxyz0123456789+/'') ! (n mod 64)"

fun base64_encode :: "buffer \<Rightarrow> string" where
  "base64_encode (x # y # z # rest) =
     base64_char (unat x div 4) # base64_char ((unat x mod 4) * 16 + unat y div 16)
       # base64_char ((unat y mod 16) * 4 + unat z div 64) # base64_char (unat z mod 64)
       # base64_encode rest"
| "base64_encode [x, y] =
     [base64_char (unat x div 4), base64_char ((unat x mod 4) * 16 + unat y div 16),
      base64_char ((unat y mod 16) * 4), CHR ''='']"
| "base64_encode [x] =
     [base64_char (unat x div 4), base64_char ((unat x mod 4) * 16), CHR ''='', CHR ''='']"
| "base64_encode [] = []"

text \<open>
  \<open>Buffer.from\<close> on a string decodes it; a number, a boolean and \<open>null\<close> are refused
  with a \<open>TypeError\<close>.  Arrays and objects do not occur in the examples and are refused
  here as well.
\<close>

definition node_buffer_from :: "json \<Rightarrow> error + buffer" where
  "node_buffer_from v =
     (case v of
        JString s \<Rightarrow> Inr (base64_decode s)
      | _ \<Rightarrow> Inl (Error ''The first argument must be of type string or an instance of Buffer''))"

text \<open>
  The identifiers of the example are \<open>id-0\<close>, \<open>id-00\<close>, \<open>id-000\<close>, ...: no two draws agree.
  The remote model of the example answers every request with two images, the bytes of
  \<open>hi\<close> and of \<open>yo\<close>.
\<close>

definition example_uuid :: "nat \<Rightarrow> string" where
  "example_uuid n = ''id-'' @ replicate (Suc n) (CHR ''0'')"

definition example_env :: env where
  "example_env =
     \<lparr>cwd = ''/app'', platform = ''linux'', randomUUID = example_uuid,
      exec_error = (\<lambda>_. None),
      send = (\<lambda>_ _. Decoded (JObject [(''images'', JArray [JString ''aGk='', JString ''eW8=''])])),
      buffer_from_base64 = node_buffer_from, to_base64 = base64_encode\<rparr>"

text \<open>
  The file system of the example: directories \<open>/app\<close>, \<open>/app/images\<close> and \<open>/tmp\<close>, the
  file \<open>/app/in.png\<close>, and no faults.
\<close>

definition example_fs :: filesystem where
  "example_fs =
     \<lparr>files = [[''app'', ''in.png''] \<mapsto> [1, 2, 3]],
      dirs = {[''app''], [''app'', ''images''], [''tmp'']},
      fault = (\<lambda>_ _. None)\<rparr>"

definition example_world :: world where
  "example_world =
     \<lparr>fs = example_fs, imageCache = Map.empty, draws = 0, requests = [], spawned = [],
      console = []\<rparr>"

text \<open>Calls used in the examples.\<close>

definition example_text_to_image :: TextToImageParams where
  "example_text_to_image =
     \<lparr>TextToImageParams.prompt = ''a red fox'', TextToImageParams.output_path = ''/tmp/out.png'',
      TextToImageParams.negative_prompt = [], TextToImageParams.height = 1024,
      TextToImageParams.width = 1024, TextToImageParams.num_images = 3,
      TextToImageParams.cfg_scale = 8, TextToImageParams.seed = 0,
      TextToImageParams.open_browser = False\<rparr>"

definition example_inpainting :: "string \<Rightarrow> InpaintingParams" where
  "example_inpainting input =
     \<lparr>InpaintingParams.image_path = input, InpaintingParams.prompt = ''a red fox'',
      InpaintingParams.mask_prompt = ''the sky'', InpaintingParams.output_path = ''/tmp/out.png'',
      InpaintingParams.negative_prompt = [], InpaintingParams.height = 512,
      InpaintingParams.width = 512, InpaintingParams.cfg_scale = 8,
      InpaintingParams.open_browser = False\<rparr>"

definition example_image_variation :: "string list \<Rightarrow> ImageVariationParams" where
  "example_image_variation inputs =
     \<lparr>ImageVariationParams.image_paths = inputs, ImageVariationParams.prompt = [],
      ImageVariationParams.negative_prompt = [], ImageVariationParams.similarity_strength = 7 / 10,
      ImageVariationParams.height = 512, ImageVariationParams.width = 512,
      ImageVariationParams.cfg_scale = 8, ImageVariationParams.open_browser = False,
      ImageVariationParams.output_path = ''/tmp/out.png''\<rparr>"

definition example_background_removal :: BackgroundRemovalParams where
  "example_background_removal =
     \<lparr>BackgroundRemovalParams.image_path = ''/app/in.png'',
      BackgroundRemovalParams.output_path = ''/tmp/out.png'',
      BackgroundRemovalParams.open_browser = False\<rparr>"

text \<open>The example file system with \<open>/tmp/out.png\<close> closed to writing.\<close>

definition example_fs_readonly :: filesystem where
  "example_fs_readonly =
     example_fs\<lparr>fault := (\<lambda>call loc. if call = OpenWrite \<and> loc = [''tmp'', ''out.png'']
                                    then Some ''EACCES: permission denied'' else None)\<rparr>"

text \<open>
  The error of reading \<open>/app/missing.png\<close>, and an environment whose remote model
  rejects every request with an error of the same message.
\<close>

definition example_missing_error :: error where
  "example_missing_error =
     Error (''ENOENT: no such file or directory, open '' @ quoted ''/app/missing.png'')"

definition example_env_rejecting :: env where
  "example_env_rejecting = example_env\<lparr>send := \<lambda>_ _. Rejected example_missing_error\<rparr>"

text \<open>An environment whose remote model answers every request with the body \<open>null\<close>.\<close>

definition example_env_null :: env where
  "example_env_null = example_env\<lparr>send := \<lambda>_ _. Decoded JNull\<rparr>"



text \<open>\<open>contains t s\<close>: the text \<open>s\<close> occurs in the text \<open>t\<close>.\<close>

fun contains :: "string \<Rightarrow> string \<Rightarrow> bool" where
  "contains [] s = (s = [])"
| "contains (c # cs) s = (take (length s) (c # cs) = s \<or> contains cs s)"

section \<open>Facts about paths and the file system\<close>

lemma segments_not_Nil: "segments p \<noteq> []"
  by (induction p) (auto split: list.splits)

lemma segments_append_slash: "segments (a @ CHR ''/'' # b) = segments a @ segments b"
  by (induction a) (auto simp: segments_not_Nil split: list.splits)

lemma walk_append:
  "walk fsys cur (xs @ ys) = (case walk fsys cur xs of Inl e \<Rightarrow> Inl e | Inr c \<Rightarrow> walk fsys c ys)"
  by (induction fsys cur xs rule: walk.induct) auto

lemma walk_Cons_dir: "walk fsys cur (s # ss) = Inr loc \<Longrightarrow> is_dir fsys cur"
  by (auto split: if_splits)

lemma walk_same_dirs:
  "dirs g = dirs f \<Longrightarrow> walk f cur ss = Inr loc \<Longrightarrow> walk g cur ss = Inr loc"
  by (induction f cur ss rule: walk.induct) (auto simp: is_dir_def split: if_splits)

lemma walk_lexical: "walk fsys cur ss = Inr loc \<Longrightarrow> loc = lexical cur ss"
  by (induction fsys cur ss rule: walk.induct) (auto split: if_splits)

lemma resolve_location: "resolve c fsys p = Inr loc \<Longrightarrow> loc = location c p"
  by (auto simp: resolve_def location_def split: if_splits dest: walk_lexical)

lemma resolve_same_dirs:
  "dirs g = dirs f \<Longrightarrow> resolve c f p = Inr loc \<Longrightarrow> resolve c g p = Inr loc"
  by (auto simp: resolve_def split: if_splits intro: walk_same_dirs)

lemma mkdirp_files: "files (snd (mkdirp fsys cur ss)) = files fsys"
  by (induction fsys cur ss rule: mkdirp.induct) (auto split: option.splits)

lemma mkdirp_fault: "fault (snd (mkdirp fsys cur ss)) = fault fsys"
  by (induction fsys cur ss rule: mkdirp.induct) (auto split: option.splits)

lemma mkdir_recursive_files: "files (snd (mkdir_recursive c fsys p)) = files fsys"
  using mkdirp_files[of fsys "start_of c p" "segments p"]
  by (auto simp: mkdir_recursive_def split: prod.splits option.splits)

lemma mkdir_recursive_files_eq: "mkdir_recursive c fsys p = (made, fsys') \<Longrightarrow> files fsys' = files fsys"
  using mkdir_recursive_files[of c fsys p] by simp

lemma mkdir_recursive_fault: "fault (snd (mkdir_recursive c fsys p)) = fault fsys"
  using mkdirp_fault[of fsys "start_of c p" "segments p"]
  by (auto simp: mkdir_recursive_def split: prod.splits option.splits)

lemma writeFile_Inr:
  assumes "writeFile c fsys p data = Inr fsys'"
  shows "fsys' = fsys\<lparr>files := (files fsys)(location c p \<mapsto> data)\<rparr>"
    and "resolve c fsys p = Inr (location c p)"
    and "\<not> is_dir fsys (location c p)"
    and "fault fsys OpenWrite (location c p) = None"
  using assms
  by (auto simp: writeFile_def split: sum.splits if_splits option.splits dest: resolve_location)

lemma writeFile_succeeds:
  assumes "resolve c fsys p = Inr loc" and "\<not> is_dir fsys loc" and "fault fsys OpenWrite loc = None"
  shows "writeFile c fsys p data = Inr (fsys\<lparr>files := (files fsys)(loc \<mapsto> data)\<rparr>)"
  using assms by (simp add: writeFile_def)

lemma readFile_absent:
  assumes "files fsys (location c p) = None"
  shows "\<exists>e. readFile c fsys p = Inl e"
  using assms
  by (auto simp: readFile_def split: sum.splits option.splits dest: resolve_location)

lemma dirname_cut:
  assumes "p \<noteq> []"
    and "dropWhile (\<lambda>c. c \<noteq> CHR ''/'') (dropWhile (\<lambda>c. c = CHR ''/'') (rev (tl p))) = r"
    and "r \<noteq> []"
  shows "\<exists>rest. p = take (length r) p @ CHR ''/'' # rest"
proof -
  obtain d1 where d1: "rev (tl p) = d1 @ dropWhile (\<lambda>c. c = CHR ''/'') (rev (tl p))"
    by (metis takeWhile_dropWhile_id)
  obtain d2 where d2: "dropWhile (\<lambda>c. c = CHR ''/'') (rev (tl p)) = d2 @ r"
    using assms(2) by (metis takeWhile_dropWhile_id)
  have "hd r = CHR ''/''"
    using assms(2,3) hd_dropWhile[of "\<lambda>c. c \<noteq> CHR ''/''"] by fastforce
  then obtain r' where r: "r = CHR ''/'' # r'"
    using assms(3) by (cases r) auto
  have "rev (tl p) = d1 @ d2 @ r" using d1 d2 by simp
  then have "tl p = rev r' @ CHR ''/'' # rev (d1 @ d2)"
    using r by (metis append.assoc rev.simps(2) rev_append append_Cons append_Nil rev_swap)
  then have "p = (hd p # rev r') @ CHR ''/'' # rev (d1 @ d2)"
    using assms(1) by (cases p) auto
  moreover have "length (hd p # rev r') = length r" using r by simp
  ultimately show ?thesis
    by (metis append_eq_conv_conj)
qed

lemma dirname_cases:
  assumes "p \<noteq> []"
    and "dropWhile (\<lambda>c. c \<noteq> CHR ''/'') (dropWhile (\<lambda>c. c = CHR ''/'') (rev (tl p))) = r"
  shows "dirname p =
           (if r = [] then (if hd p = CHR ''/'' then ''/'' else ''.'')
            else if hd p = CHR ''/'' \<and> length r = 1 then ''//'' else take (length r) p)"
  using assms unfolding dirname_def Let_def by auto

lemma isAbsolute_hd: "p \<noteq> [] \<Longrightarrow> isAbsolute p = (hd p = CHR ''/'')"
  by (cases p) (auto simp: isAbsolute_def)

lemma walk_prefix_dir:
  assumes "walk fsys cur (segments a @ segments b) = Inr loc"
  shows "\<exists>c. walk fsys cur (segments a) = Inr c \<and> is_dir fsys c"
proof -
  obtain c where c: "walk fsys cur (segments a) = Inr c" and rest: "walk fsys c (segments b) = Inr loc"
    using assms by (auto simp: walk_append split: sum.splits)
  obtain s ss where "segments b = s # ss"
    using segments_not_Nil[of b] by (cases "segments b") auto
  with rest have "is_dir fsys c" by (metis walk_Cons_dir)
  with c show ?thesis by blast
qed

lemma exists_root: "existsSync c fsys ''/''" and exists_root2: "existsSync c fsys ''//''"
  by (simp_all add: existsSync_def resolve_def start_of_def isAbsolute_def is_dir_def)

lemma exists_dot: "is_dir fsys (start_of c ''.'') \<Longrightarrow> existsSync c fsys ''.''"
  by (simp add: existsSync_def resolve_def)

lemma start_of_relative: "p \<noteq> [] \<Longrightarrow> hd p \<noteq> CHR ''/'' \<Longrightarrow> start_of c ''.'' = start_of c p"
  by (simp add: start_of_def isAbsolute_hd)

lemma start_of_prefix: "a \<noteq> [] \<Longrightarrow> start_of c (a @ b) = start_of c a"
  by (cases a) (simp_all add: start_of_def isAbsolute_def)

lemma exists_prefix:
  assumes "a \<noteq> []" and "CHR 0x00 \<notin> set a"
    and "walk fsys (start_of c a) (segments a) = Inr c'" and "is_dir fsys c'"
  shows "existsSync c fsys a"
  using assms by (simp add: existsSync_def resolve_def)

text \<open>A path that resolves has a directory that exists.\<close>

lemma dirname_exists:
  assumes "resolve c fsys p = Inr loc"
  shows "existsSync c fsys (dirname p)"
proof -
  have p: "p \<noteq> []" and nul: "CHR 0x00 \<notin> set p"
    and w: "walk fsys (start_of c p) (segments p) = Inr loc"
    using assms by (auto simp: resolve_def split: if_splits)
  obtain r where r: "dropWhile (\<lambda>c. c \<noteq> CHR ''/'') (dropWhile (\<lambda>c. c = CHR ''/'') (rev (tl p))) = r"
    by blast
  obtain s ss where seg: "segments p = s # ss"
    using segments_not_Nil[of p] by (cases "segments p") auto
  have start: "is_dir fsys (start_of c p)"
    using w seg by (metis walk_Cons_dir)
  show ?thesis
  proof (cases "r = []")
    case True
    with dirname_cases[OF p r] have d: "dirname p = (if hd p = CHR ''/'' then ''/'' else ''.'')"
      by simp
    show ?thesis
    proof (cases "hd p = CHR ''/''")
      case True
      with d show ?thesis by (simp add: exists_root)
    next
      case False
      with p have "start_of c ''.'' = start_of c p" by (rule start_of_relative)
      with start have "existsSync c fsys ''.''" by (simp add: exists_dot)
      with d False show ?thesis by simp
    qed
  next
    case False
    have d: "dirname p = (if hd p = CHR ''/'' \<and> length r = 1 then ''//'' else take (length r) p)"
      using dirname_cases[OF p r] False by simp
    show ?thesis
    proof (cases "hd p = CHR ''/'' \<and> length r = 1")
      case True
      with d show ?thesis by (simp add: exists_root2)
    next
      case nots: False
      define a where "a = take (length r) p"
      from dirname_cut[OF p r False] obtain rest where "p = take (length r) p @ CHR ''/'' # rest" ..
      then have cut: "p = a @ CHR ''/'' # rest" by (simp only: a_def)
      have "length r \<noteq> 0" using False by simp
      with p a_def have ane: "a \<noteq> []" by auto
      have st: "start_of c p = start_of c a"
        using cut start_of_prefix[OF ane] by metis
      have nula: "CHR 0x00 \<notin> set a"
        using nul cut by (metis Un_iff set_append)
      have "walk fsys (start_of c a) (segments a @ segments rest) = Inr loc"
        using w cut segments_append_slash[of a rest] st by metis
      then obtain c' where "walk fsys (start_of c a) (segments a) = Inr c'" and "is_dir fsys c'"
        using walk_prefix_dir by blast
      then have "existsSync c fsys a"
        using ane nula by (metis exists_prefix)
      with d nots a_def show ?thesis by auto
    qed
  qed
qed

lemma normalize_not_Nil: "normalize p \<noteq> []"
  by (auto simp: normalize_def Let_def)

lemma path_join_not_Nil: "path_join a b \<noteq> []"
  by (auto simp: path_join_def Let_def normalize_not_Nil)

section \<open>Facts about \<open>saveImage\<close> and \<open>getImage\<close>\<close>

text \<open>What a call of \<open>saveImage\<close> that returns has done.\<close>

lemma saveImage_Inr:
  assumes "saveImage E b ob out w = (Inr r, w')"
  shows "r = \<lparr>imageId = randomUUID E (draws w),
              imagePath = effective_path E (randomUUID E (draws w)) out,
              url = ''file://'' @ effective_path E (randomUUID E (draws w)) out\<rparr>"
    and "writeFile (cwd E)
           (if existsSync (cwd E) (fs w) (dirname (effective_path E (randomUUID E (draws w)) out))
            then fs w
            else snd (mkdir_recursive (cwd E) (fs w)
                        (dirname (effective_path E (randomUUID E (draws w)) out))))
           (effective_path E (randomUUID E (draws w)) out) b = Inr (fs w')"
    and "imageCache w' = (imageCache w)(randomUUID E (draws w) \<mapsto> b)"
    and "draws w' = Suc (draws w)"
    and "requests w' = requests w"
    and "console w' = console w"
    and "spawned w' =
           (if ob then spawned w @ [open_command E (effective_path E (randomUUID E (draws w)) out)]
            else spawned w)"
  using assms
  by (auto simp: saveImage_def Let_def split: prod.splits option.splits sum.splits if_splits)

text \<open>What a call of \<open>saveImage\<close> that throws has done.\<close>

lemma saveImage_Inl:
  assumes "saveImage E b ob out w = (Inl e, w')"
  shows "files (fs w') = files (fs w)"
    and "imageCache w' = imageCache w"
    and "draws w' = Suc (draws w)"
    and "requests w' = requests w"
    and "spawned w' = spawned w"
    and "console w' = console w @ [ConsoleError ''Error saving image:'' e]"
  using assms
  by (auto simp: saveImage_def Let_def log_error_def
           split: prod.splits option.splits sum.splits if_splits
           dest: mkdir_recursive_files_eq)

lemma saveImage_files:
  assumes "saveImage E b ob out w = (Inr r, w')"
  shows "files (fs w') = (files (fs w))(location (cwd E) (imagePath r) \<mapsto> b)"
    and "resolve (cwd E) (fs w') (imagePath r) = Inr (location (cwd E) (imagePath r))"
proof -
  let ?p = "effective_path E (randomUUID E (draws w)) out"
  let ?fs1 = "if existsSync (cwd E) (fs w) (dirname ?p) then fs w
              else snd (mkdir_recursive (cwd E) (fs w) (dirname ?p))"
  have p: "imagePath r = ?p" using saveImage_Inr(1)[OF assms] by simp
  have wr: "writeFile (cwd E) ?fs1 ?p b = Inr (fs w')" by (rule saveImage_Inr(2)[OF assms])
  have f1: "files ?fs1 = files (fs w)" by (simp add: mkdir_recursive_files)
  have eq: "fs w' = ?fs1\<lparr>files := (files ?fs1)(location (cwd E) ?p \<mapsto> b)\<rparr>"
    by (rule writeFile_Inr(1)[OF wr])
  have "files (fs w') = (files ?fs1)(location (cwd E) ?p \<mapsto> b)"
    by (subst eq) simp
  with f1 p show "files (fs w') = (files (fs w))(location (cwd E) (imagePath r) \<mapsto> b)"
    by simp
  have "dirs (fs w') = dirs ?fs1" by (subst eq) simp
  from resolve_same_dirs[OF this writeFile_Inr(2)[OF wr]] p
  show "resolve (cwd E) (fs w') (imagePath r) = Inr (location (cwd E) (imagePath r))"
    by simp
qed

text \<open>The identifiers drawn are never given back.\<close>

lemma saveImage_draws: "saveImage E b ob out w = (r, w') \<Longrightarrow> draws w' = Suc (draws w)"
  by (cases r) (auto dest: saveImage_Inl(3) saveImage_Inr(4))

lemma getImage_draws: "getImage E ident w = (d, w') \<Longrightarrow> draws w' = draws w"
  by (auto simp: getImage_def log_error_def split: option.splits sum.splits)

lemma generateImage_draws: "generateImage E body w = (d, w') \<Longrightarrow> draws w' = draws w"
  by (auto simp: generateImage_def Let_def log_error_def split: sum.splits)

section \<open>Facts about \<open>path.join\<close>\<close>

lemma settled_suffix: "settled allow (xs @ st) \<Longrightarrow> settled allow st"
  by (induction xs) auto

lemma normalizeString_settled:
  "settled allow res \<Longrightarrow> \<exists>res'. normalizeString allow res ss = rev res' \<and> settled allow res'"
proof (induction ss arbitrary: res)
  case Nil
  then show ?case by auto
next
  case (Cons s ss)
  note IH = Cons.IH and ok = Cons.prems
  show ?case
  proof (cases "s = [] \<or> s = ''.''")
    case True
    then show ?thesis using IH[OF ok] by simp
  next
    case False
    show ?thesis
    proof (cases "s = ''..''")
      case dd: True
      show ?thesis
      proof (cases res)
        case Nil
        have "settled allow (if allow then [''..''] else [])" by simp
        from IH[OF this] show ?thesis using dd Nil by simp
      next
        case step: (Cons r rs)
        show ?thesis
        proof (cases "r = ''..''")
          case True
          have "settled allow (if allow then ''..'' # res else res)"
            using ok step True by auto
          from IH[OF this] show ?thesis using dd step True by (cases allow) simp_all
        next
          case False
          have "settled allow rs" using ok step by simp
          from IH[OF this] show ?thesis using dd step False by simp
        qed
      qed
    next
      case nd: False
      have "settled allow (s # res)" using ok False nd by simp
      from IH[OF this] show ?thesis using False nd by simp
    qed
  qed
qed

lemma normalizeString_fixed:
  "settled allow (rev ys @ acc) \<Longrightarrow> normalizeString allow acc ys = rev acc @ ys"
proof (induction ys arbitrary: acc)
  case Nil
  then show ?case by simp
next
  case (Cons y ys)
  note IH = Cons.IH
  have st: "settled allow (y # acc)"
    using Cons.prems settled_suffix[of allow "rev ys" "y # acc"] by simp
  have next_ok: "settled allow (rev ys @ (y # acc))" using Cons.prems by simp
  show ?case
  proof (cases "y = ''..''")
    case True
    then have al: allow and below: "\<forall>t\<in>set acc. t = ''..''" using st by auto
    show ?thesis
    proof (cases acc)
      case Nil
      then show ?thesis using True al IH[OF next_ok] by simp
    next
      case step: (Cons r rs)
      then have "r = ''..''" using below by simp
      then show ?thesis using True al step IH[OF next_ok] by simp
    qed
  next
    case False
    then show ?thesis using st IH[OF next_ok] by simp
  qed
qed

lemma normalizeString_snoc:
  "n \<noteq> [] \<Longrightarrow> n \<noteq> ''.'' \<Longrightarrow> n \<noteq> ''..'' \<Longrightarrow>
   normalizeString allow res (ss @ [n]) = normalizeString allow res ss @ [n]"
  by (induction allow res ss rule: normalizeString.induct) (auto split: list.splits)

lemma segments_plain: "CHR ''/'' \<notin> set s \<Longrightarrow> segments s = [s]"
  by (induction s) auto

lemma segments_slashfree: "s \<in> set (segments p) \<Longrightarrow> CHR ''/'' \<notin> set s"
  by (induction p arbitrary: s) (auto split: if_splits list.splits)

lemma segments_unsegments:
  "ss \<noteq> [] \<Longrightarrow> \<forall>s\<in>set ss. CHR ''/'' \<notin> set s \<Longrightarrow> segments (unsegments ss) = ss"
proof (induction ss rule: unsegments.induct)
  case 1
  then show ?case by simp
next
  case (2 s)
  then show ?case by (simp add: segments_plain)
next
  case (3 s t ss)
  then show ?case by (simp add: segments_append_slash segments_plain)
qed

lemma unsegments_snoc: "ss \<noteq> [] \<Longrightarrow> unsegments (ss @ [n]) = unsegments ss @ CHR ''/'' # n"
  by (induction ss rule: unsegments.induct) auto

lemma unsegments_not_Nil: "ss \<noteq> [] \<Longrightarrow> hd ss \<noteq> [] \<Longrightarrow> unsegments ss \<noteq> []"
  by (induction ss rule: unsegments.induct) auto

lemma hd_unsegments: "ss \<noteq> [] \<Longrightarrow> hd ss \<noteq> [] \<Longrightarrow> hd (unsegments ss) = hd (hd ss)"
  by (induction ss rule: unsegments.induct) auto

lemma unsegments_not_Nil_last: "ss \<noteq> [] \<Longrightarrow> last ss \<noteq> [] \<Longrightarrow> unsegments ss \<noteq> []"
  by (induction ss rule: unsegments.induct) auto

lemma last_unsegments: "ss \<noteq> [] \<Longrightarrow> last ss \<noteq> [] \<Longrightarrow> last (unsegments ss) = last (last ss)"
proof (induction ss rule: unsegments.induct)
  case 1
  then show ?case by simp
next
  case (2 s)
  then show ?case by simp
next
  case (3 s t ss)
  have "unsegments (t # ss) \<noteq> []" using 3(3) by (intro unsegments_not_Nil_last) simp_all
  then show ?case using 3 by simp
qed

lemma settled_nonempty: "settled allow st \<Longrightarrow> s \<in> set st \<Longrightarrow> s \<noteq> []"
  by (induction st) auto

lemma normalizeString_step:
  "\<exists>res'. normalizeString allow res (s # ss) = normalizeString allow res' ss
          \<and> set res' \<subseteq> set res \<union> {s, ''..''}"
proof (cases "s = [] \<or> s = ''.''")
  case True
  then show ?thesis by (intro exI[of _ res]) auto
next
  case False
  show ?thesis
  proof (cases "s = ''..''")
    case dd: True
    show ?thesis
    proof (cases res)
      case Nil
      with dd show ?thesis by (intro exI[of _ "if allow then [''..''] else []"]) auto
    next
      case (Cons r rs)
      show ?thesis
      proof (cases "r = ''..''")
        case True
        with dd Cons show ?thesis by (intro exI[of _ "if allow then ''..'' # res else res"]) auto
      next
        case nr: False
        with dd Cons show ?thesis by (intro exI[of _ rs]) auto
      qed
    qed
  next
    case nd: False
    with False show ?thesis by (intro exI[of _ "s # res"]) auto
  qed
qed

lemma normalizeString_elements:
  "set (normalizeString allow res ss) \<subseteq> set res \<union> set ss \<union> {''..''}"
proof (induction ss arbitrary: res)
  case Nil
  then show ?case by auto
next
  case (Cons s ss)
  obtain res' where eq: "normalizeString allow res (s # ss) = normalizeString allow res' ss"
    and sub: "set res' \<subseteq> set res \<union> {s, ''..''}"
    using normalizeString_step by blast
  have "set (normalizeString allow res' ss) \<subseteq> set res' \<union> set ss \<union> {''..''}" by (rule Cons.IH)
  with sub show ?case unfolding eq by auto
qed

lemma stack_of_settled: "\<exists>res. stack_of x = rev res \<and> settled (\<not> isAbsolute x) res"
  unfolding stack_of_def by (rule normalizeString_settled) simp

lemma stack_of_nonempty: "s \<in> set (stack_of x) \<Longrightarrow> s \<noteq> []"
  using stack_of_settled[of x] settled_nonempty by fastforce

lemma stack_of_slashfree: "s \<in> set (stack_of x) \<Longrightarrow> CHR ''/'' \<notin> set s"
proof -
  assume "s \<in> set (stack_of x)"
  then have "s \<in> set (segments x) \<or> s = ''..''"
    using normalizeString_elements[of "\<not> isAbsolute x" "[]" "segments x"]
    by (auto simp: stack_of_def)
  then show ?thesis using segments_slashfree by auto
qed

lemma normalize_formula:
  assumes "x \<noteq> []" and "last x \<noteq> CHR ''/''" and "stack_of x \<noteq> []"
  shows "normalize x = (if isAbsolute x then ''/'' else []) @ unsegments (stack_of x)"
proof -
  have "hd (stack_of x) \<noteq> []" using assms(3) stack_of_nonempty[of _ x] by simp
  then have "unsegments (stack_of x) \<noteq> []" using assms(3) by (rule unsegments_not_Nil[rotated])
  then show ?thesis using assms(1,2) by (simp add: normalize_def Let_def stack_of_def)
qed

lemma isAbsolute_append: "x \<noteq> [] \<Longrightarrow> isAbsolute (x @ y) = isAbsolute x"
  by (cases x) (simp_all add: isAbsolute_def)

lemma stack_of_append_name:
  assumes "x \<noteq> []" and "CHR ''/'' \<notin> set name" and "name \<noteq> []" and "name \<noteq> ''.''"
    and "name \<noteq> ''..''"
  shows "stack_of (x @ CHR ''/'' # name) = stack_of x @ [name]"
  using assms
  by (simp add: stack_of_def isAbsolute_append segments_append_slash segments_plain
        normalizeString_snoc)

lemma normalize_append_name:
  assumes "x \<noteq> []" and "last x \<noteq> CHR ''/''" and "stack_of x \<noteq> []"
    and "CHR ''/'' \<notin> set name" and "name \<noteq> []" and "name \<noteq> ''.''" and "name \<noteq> ''..''"
  shows "normalize (x @ CHR ''/'' # name) = normalize x @ CHR ''/'' # name"
proof -
  let ?y = "x @ CHR ''/'' # name"
  have st: "stack_of ?y = stack_of x @ [name]"
    using assms(1,4-7) by (rule stack_of_append_name)
  have "last ?y = last name" using assms(5) by simp
  moreover have "last name \<in> set name" using assms(5) by simp
  ultimately have l: "last ?y \<noteq> CHR ''/''" using assms(4) by metis
  have "normalize ?y = (if isAbsolute ?y then ''/'' else []) @ unsegments (stack_of ?y)"
    by (rule normalize_formula) (use l st in simp_all)
  also have "\<dots> = (if isAbsolute x then ''/'' else []) @ unsegments (stack_of x) @ CHR ''/'' # name"
    using st assms(1,3) by (simp add: isAbsolute_append unsegments_snoc)
  also have "\<dots> = normalize x @ CHR ''/'' # name"
    using normalize_formula[OF assms(1-3)] by simp
  finally show ?thesis .
qed

lemma normalize_fixed:
  assumes "x \<noteq> []" and "last x \<noteq> CHR ''/''" and "stack_of x \<noteq> []"
  shows "normalize x \<noteq> []" and "last (normalize x) \<noteq> CHR ''/''"
    and "stack_of (normalize x) = stack_of x" and "isAbsolute (normalize x) = isAbsolute x"
proof -
  let ?st = "stack_of x"
  let ?d = "normalize x"
  have d: "?d = (if isAbsolute x then ''/'' else []) @ unsegments ?st"
    by (rule normalize_formula[OF assms])
  have ne: "\<forall>s\<in>set ?st. s \<noteq> []" using stack_of_nonempty by blast
  have sf: "\<forall>s\<in>set ?st. CHR ''/'' \<notin> set s" using stack_of_slashfree by blast
  have hdne: "hd ?st \<noteq> []" and lastne: "last ?st \<noteq> []" using assms(3) ne by simp_all
  have u: "unsegments ?st \<noteq> []" using assms(3) hdne by (rule unsegments_not_Nil)
  show dne: "?d \<noteq> []" using d u by simp
  have "last ?d = last (unsegments ?st)" using d u by simp
  also have "\<dots> = last (last ?st)" using assms(3) lastne by (rule last_unsegments)
  finally have "last ?d \<in> set (last ?st)" using lastne by simp
  moreover have "CHR ''/'' \<notin> set (last ?st)" using sf assms(3) by simp
  ultimately show "last ?d \<noteq> CHR ''/''" by metis
  have "hd (unsegments ?st) = hd (hd ?st)" using assms(3) hdne by (rule hd_unsegments)
  moreover have "hd (hd ?st) \<in> set (hd ?st)" using hdne by simp
  moreover have "CHR ''/'' \<notin> set (hd ?st)" using sf assms(3) by simp
  ultimately have h: "hd (unsegments ?st) \<noteq> CHR ''/''" by metis
  show abs: "isAbsolute ?d = isAbsolute x"
  proof (cases "isAbsolute x")
    case True
    then show ?thesis using d by (simp add: isAbsolute_def)
  next
    case False
    then have "?d = unsegments ?st" using d by simp
    then show ?thesis using False u h by (cases "unsegments ?st") (simp_all add: isAbsolute_def)
  qed
  have seg: "segments (unsegments ?st) = ?st" using assms(3) sf by (rule segments_unsegments)
  obtain res where res: "?st = rev res" "settled (\<not> isAbsolute x) res"
    using stack_of_settled by blast
  have fixed: "normalizeString (\<not> isAbsolute x) [] ?st = ?st"
    using normalizeString_fixed[of "\<not> isAbsolute x" ?st "[]"] res by simp
  show "stack_of ?d = ?st"
  proof (cases "isAbsolute x")
    case True
    then have "segments ?d = [] # ?st" using d seg by simp
    then show ?thesis using abs True fixed by (simp add: stack_of_def)
  next
    case False
    then have "segments ?d = ?st" using d seg by simp
    then show ?thesis using abs False fixed by (simp add: stack_of_def)
  qed
qed

lemma normalize_idem:
  assumes "x \<noteq> []" and "last x \<noteq> CHR ''/''" and "stack_of x \<noteq> []"
  shows "normalize (normalize x) = normalize x"
proof -
  note f = normalize_fixed[OF assms]
  have "normalize (normalize x) =
      (if isAbsolute (normalize x) then ''/'' else []) @ unsegments (stack_of (normalize x))"
    by (rule normalize_formula) (use f assms(3) in simp_all)
  also have "\<dots> = (if isAbsolute x then ''/'' else []) @ unsegments (stack_of x)"
    using f(3,4) by simp
  also have "\<dots> = normalize x" by (rule normalize_formula[OF assms, symmetric])
  finally show ?thesis .
qed

lemma stack_of_images: "stack_of (if c = [] then ''images'' else c @ ''/images'') \<noteq> []"
proof (cases "c = []")
  case True
  then show ?thesis by (simp add: stack_of_def isAbsolute_def)
next
  case False
  then have "stack_of (c @ CHR ''/'' # ''images'') = stack_of c @ [''images'']"
    by (intro stack_of_append_name) simp_all
  with False show ?thesis by simp
qed

lemma path_join_images: "path_join c ''images'' = normalize (if c = [] then ''images'' else c @ ''/images'')"
  by (simp add: path_join_def)

lemma default_path_plain:
  assumes "CHR ''/'' \<notin> set name" and "name \<noteq> []" and "name \<noteq> ''.''" and "name \<noteq> ''..''"
  shows "path_join (path_join c ''images'') name = path_join c ''images'' @ CHR ''/'' # name"
proof -
  let ?x = "if c = [] then ''images'' else c @ ''/images''"
  let ?d = "normalize ?x"
  have x: "?x \<noteq> []" "last ?x \<noteq> CHR ''/''" by simp_all
  note f = normalize_fixed[OF x stack_of_images]
  have "path_join ?d name = normalize (?d @ CHR ''/'' # name)"
    using f(1) assms(2) by (simp add: path_join_def)
  also have "\<dots> = normalize ?d @ CHR ''/'' # name"
    by (rule normalize_append_name) (use f stack_of_images assms in simp_all)
  also have "normalize ?d = ?d" by (rule normalize_idem[OF x stack_of_images])
  finally show ?thesis by (simp only: path_join_images)
qed

text \<open>
  The default path written out: for an identifier without a slash it is the default
  directory, a slash, the identifier and \<open>.png\<close>.
\<close>

lemma default_path_literal:
  assumes "CHR ''/'' \<notin> set ident"
  shows "path_join (imagesDir E) (ident @ ''.png'') = imagesDir E @ ''/'' @ ident @ ''.png''"
proof -
  let ?n = "ident @ ''.png''"
  have len: "length ?n = length ident + 4" by simp
  have n0: "?n \<noteq> []" by simp
  have n1: "?n \<noteq> ''.''"
  proof
    assume "?n = ''.''"
    then have "length ?n = 1" by simp
    with len show False by simp
  qed
  have n2: "?n \<noteq> ''..''"
  proof
    assume "?n = ''..''"
    then have "length ?n = 2" by simp
    with len show False by simp
  qed
  have sl: "CHR ''/'' \<notin> set ?n" using assms by simp
  from default_path_plain[OF sl n0 n1 n2, of "cwd E"] show ?thesis
    by (simp add: imagesDir_def)
qed

section \<open>All handlers follow one course\<close>

text \<open>
  Every registered tool reads its inputs and builds its request, then generates, then
  saves, and turns an error thrown on the way into its text.
\<close>

lemma call_tool_course:
  "call_tool E c w =
     catch_as_text (log_label c) (failed_text c)
       (case request_of E c (fs w) of
          Inl e \<Rightarrow> (Inl e, w)
        | Inr body \<Rightarrow>
            generate_then_save E body (open_browser_of c) (output_path_of c) (saved_text c) w)"
proof (cases c)
  case (Text_to_image params)
  then show ?thesis by (simp add: textToImage_def textToImage_try_def)
next
  case (Inpainting params)
  then show ?thesis by (simp add: inpainting_def inpainting_try_def split: sum.splits)
next
  case (Outpainting params)
  then show ?thesis by (simp add: outpainting_def outpainting_try_def split: sum.splits)
next
  case (Image_variation params)
  then show ?thesis by (simp add: imageVariation_def imageVariation_try_def split: sum.splits)
next
  case (Image_conditioning params)
  then show ?thesis by (simp add: imageConditioning_def imageConditioning_try_def split: sum.splits)
next
  case (Color_guided_generation params)
  then show ?thesis
    by (simp add: colorGuidedGeneration_def colorGuidedGeneration_try_def Let_def
             split: sum.splits option.splits)
next
  case (Background_removal params)
  then show ?thesis by (simp add: backgroundRemoval_def backgroundRemoval_try_def split: sum.splits)
qed

lemma call_tool_read_failure:
  assumes "request_of E c (fs w) = Inl e"
  shows "call_tool E c w = (text_result (failed_text c @ message e), log_error (log_label c) e w)"
  by (simp add: call_tool_course assms catch_as_text_def)

lemma call_tool_remote_failure:
  assumes "request_of E c (fs w) = Inr body" and "generateImage E body w = (Inl e, w1)"
  shows "call_tool E c w = (text_result (failed_text c @ message e), log_error (log_label c) e w1)"
  by (simp add: call_tool_course assms catch_as_text_def generate_then_save_def)

lemma generate_then_save_draws:
  "generate_then_save E body ob out t w = (r, w') \<Longrightarrow> draws w \<le> draws w'"
  by (auto simp: generate_then_save_def split: prod.splits sum.splits
           dest!: generateImage_draws saveImage_draws)

lemma call_tool_draws:
  assumes "call_tool E c w = (res, w')"
  shows "draws w \<le> draws w'"
proof (cases "request_of E c (fs w)")
  case (Inl e)
  with assms show ?thesis
    by (auto simp: call_tool_course catch_as_text_def log_error_def)
next
  case (Inr body)
  obtain r w1 where g: "generate_then_save E body (open_browser_of c) (output_path_of c) (saved_text c) w = (r, w1)"
    by (cases "generate_then_save E body (open_browser_of c) (output_path_of c) (saved_text c) w")
  then have "draws w \<le> draws w1" by (rule generate_then_save_draws)
  moreover have "draws w' = draws w1"
    using assms Inr g by (auto simp: call_tool_course catch_as_text_def log_error_def split: sum.splits)
  ultimately show ?thesis by simp
qed

lemma exec_callback_draws: "draws (exec_callback E command w) = draws w"
  by (simp add: exec_callback_def log_error_def split: option.splits)

lemma reaches_draws: "reaches E w w' \<Longrightarrow> draws w \<le> draws w'"
proof (induction rule: reaches.induct)
  case (here w)
  show ?case by simp
next
  case (tool w w1 c res w2)
  then show ?case using call_tool_draws by fastforce
next
  case (sent w w1 body g w2)
  then show ?case using generateImage_draws by fastforce
next
  case (save w w1 b ob out r w2)
  then show ?case using saveImage_draws by fastforce
next
  case (load w w1 ident d w2)
  then show ?case using getImage_draws by fastforce
next
  case (opened w w1 command w2)
  then show ?case using exec_callback_draws by fastforce
qed

section \<open>Creating directories\<close>

text \<open>
  What \<open>mkdirp\<close> does to the directories: it only adds, it adds nothing but its
  stations, it succeeds when every station is a directory or may become one, and then the
  path leads to a directory.
\<close>

lemma mkdirp_dirs_mono: "dirs fsys \<subseteq> dirs (snd (mkdirp fsys cur ss))"
  by (induction fsys cur ss rule: mkdirp.induct) (auto split: option.splits)

lemma may_hold_dir_insert:
  "may_hold_dir fsys loc \<Longrightarrow> may_hold_dir (fsys\<lparr>dirs := insert d (dirs fsys)\<rparr>) loc"
  by (auto simp: may_hold_dir_def is_dir_def)

lemma mkdirp_succeeds:
  "list_all (may_hold_dir fsys) (stations cur ss) \<Longrightarrow> fst (mkdirp fsys cur ss) = None"
proof (induction fsys cur ss rule: mkdirp.induct)
  case (1 fsys cur)
  then show ?case by simp
next
  case (2 fsys cur s ss)
  show ?case
  proof (cases "s = [] \<or> s = ''.''")
    case True
    with 2 show ?thesis by auto
  next
    case False
    show ?thesis
    proof (cases "s = ''..''")
      case True
      with 2 False show ?thesis by auto
    next
      case nd: False
      have here: "may_hold_dir fsys (cur @ [s])"
        and rest: "list_all (may_hold_dir fsys) (stations (cur @ [s]) ss)"
        using 2(5) False nd by simp_all
      show ?thesis
      proof (cases "is_dir fsys (cur @ [s])")
        case True
        with 2(3)[OF False nd True rest] False nd show ?thesis by simp
      next
        case nodir: False
        then have f: "files fsys (cur @ [s]) = None" and m: "fault fsys MakeDir (cur @ [s]) = None"
          using here by (auto simp: may_hold_dir_def)
        have "list_all (may_hold_dir (fsys\<lparr>dirs := insert (cur @ [s]) (dirs fsys)\<rparr>))
                (stations (cur @ [s]) ss)"
          using rest by (auto simp: list_all_iff intro: may_hold_dir_insert)
        with 2(4)[OF False nd nodir _ m] f False nd nodir m show ?thesis by simp
      qed
    qed
  qed
qed


lemma mkdirp_made:
  "fst (mkdirp fsys cur ss) = None \<Longrightarrow> set (stations cur ss) \<subseteq> dirs (snd (mkdirp fsys cur ss))"
proof (induction fsys cur ss rule: mkdirp.induct)
  case (1 fsys cur)
  then show ?case by simp
next
  case (2 fsys cur s ss)
  show ?case
  proof (cases "s = [] \<or> s = ''.''")
    case True
    with 2 show ?thesis by auto
  next
    case False
    show ?thesis
    proof (cases "s = ''..''")
      case True
      with 2 False show ?thesis by auto
    next
      case nd: False
      show ?thesis
      proof (cases "is_dir fsys (cur @ [s])")
        case True
        then have "cur @ [s] \<in> dirs fsys" by (simp add: is_dir_def)
        then have "cur @ [s] \<in> dirs (snd (mkdirp fsys (cur @ [s]) ss))"
          using mkdirp_dirs_mono by blast
        with 2(3)[OF False nd True] 2(5) False nd True show ?thesis by simp
      next
        case nodir: False
        let ?f = "fsys\<lparr>dirs := insert (cur @ [s]) (dirs fsys)\<rparr>"
        from 2(5) False nd nodir
        have f: "files fsys (cur @ [s]) = None" and m: "fault fsys MakeDir (cur @ [s]) = None"
          and ok: "fst (mkdirp ?f (cur @ [s]) ss) = None"
          by (auto split: if_splits option.splits)
        have "cur @ [s] \<in> dirs (snd (mkdirp ?f (cur @ [s]) ss))"
          using mkdirp_dirs_mono[of ?f] by auto
        with 2(4)[OF False nd nodir _ m ok] f m False nd nodir show ?thesis by simp
      qed
    qed
  qed
qed

lemma mkdirp_dirs_upper:
  "dirs (snd (mkdirp fsys cur ss)) \<subseteq> dirs fsys \<union> set (stations cur ss)"
  by (induction fsys cur ss rule: mkdirp.induct) (auto split: option.splits)

lemma walk_mono:
  "dirs f \<subseteq> dirs g \<Longrightarrow> walk f cur ss = Inr loc \<Longrightarrow> walk g cur ss = Inr loc"
  by (induction f cur ss rule: walk.induct) (auto simp: is_dir_def split: if_splits)

lemma tree_shaped_insert:
  "tree_shaped fsys \<Longrightarrow> is_dir fsys cur \<Longrightarrow>
   tree_shaped (fsys\<lparr>dirs := insert (cur @ [s]) (dirs fsys)\<rparr>)"
  by (auto simp: tree_shaped_def is_dir_def)

lemma tree_shaped_parent: "tree_shaped fsys \<Longrightarrow> is_dir fsys cur \<Longrightarrow> is_dir fsys (butlast cur)"
  by (auto simp: tree_shaped_def is_dir_def)

lemma mkdirp_walk:
  "fst (mkdirp fsys cur ss) = None \<Longrightarrow> is_dir fsys cur \<Longrightarrow> tree_shaped fsys \<Longrightarrow>
   walk (snd (mkdirp fsys cur ss)) cur ss = Inr (lexical cur ss)
   \<and> is_dir (snd (mkdirp fsys cur ss)) (lexical cur ss)"
proof (induction fsys cur ss rule: mkdirp.induct)
  case (1 fsys cur)
  then show ?case by simp
next
  case (2 fsys cur s ss)
  let ?F = "snd (mkdirp fsys cur (s # ss))"
  have here: "is_dir ?F cur"
    using 2(6) mkdirp_dirs_mono[of fsys cur "s # ss"] by (auto simp: is_dir_def)
  show ?case
  proof (cases "s = [] \<or> s = ''.''")
    case True
    with 2(1)[OF True] 2(5,6,7) here show ?thesis by auto
  next
    case False
    show ?thesis
    proof (cases "s = ''..''")
      case True
      have "is_dir fsys (butlast cur)" using 2(6,7) by (rule tree_shaped_parent[rotated])
      with 2(2)[OF False True] 2(5,7) False True here show ?thesis by simp
    next
      case nd: False
      show ?thesis
      proof (cases "is_dir fsys (cur @ [s])")
        case True
        with 2(3)[OF False nd True] 2(5,7) False nd here show ?thesis by simp
      next
        case nodir: False
        let ?f = "fsys\<lparr>dirs := insert (cur @ [s]) (dirs fsys)\<rparr>"
        from 2(5) False nd nodir
        have f: "files fsys (cur @ [s]) = None" and m: "fault fsys MakeDir (cur @ [s]) = None"
          and ok: "fst (mkdirp ?f (cur @ [s]) ss) = None"
          by (auto split: if_splits option.splits)
        have d: "is_dir ?f (cur @ [s])" by (simp add: is_dir_def)
        have t: "tree_shaped ?f" using 2(7,6) by (rule tree_shaped_insert)
        from 2(4)[OF False nd nodir _ m ok d t] f m False nd nodir here show ?thesis by simp
      qed
    qed
  qed
qed

lemma dirname_of_join:
  assumes "d \<noteq> []" and "plain name"
  shows "dirname (d @ CHR ''/'' # name) =
           (if hd d = CHR ''/'' \<and> length d = 1 then ''//'' else d)"
proof -
  obtain c d' where d: "d = c # d'" using assms(1) by (cases d) auto
  have nm: "name \<noteq> []" "CHR ''/'' \<notin> set name" using assms(2) by (simp_all add: plain_def)
  let ?p = "d @ CHR ''/'' # name"
  have rv: "rev (tl ?p) = rev name @ CHR ''/'' # rev d'" using d by simp
  have "hd (rev name) \<noteq> CHR ''/''" using nm by (metis hd_rev last_in_set)
  then have d1: "dropWhile (\<lambda>c. c = CHR ''/'') (rev name @ CHR ''/'' # rev d') =
                 rev name @ CHR ''/'' # rev d'"
    using nm(1) by (cases "rev name") auto
  have d2: "dropWhile (\<lambda>c. c \<noteq> CHR ''/'') (rev name @ CHR ''/'' # rev d') = CHR ''/'' # rev d'"
    using nm(2) by (simp add: dropWhile_append)
  have r: "dropWhile (\<lambda>c. c \<noteq> CHR ''/'') (dropWhile (\<lambda>c. c = CHR ''/'') (rev (tl ?p))) =
           CHR ''/'' # rev d'"
    unfolding rv d1 d2 ..
  have "?p \<noteq> []" by simp
  from dirname_cases[OF this r] show ?thesis using d by simp
qed

lemma mkdirp_dirs:
  "fst (mkdirp fsys cur ss) = None \<Longrightarrow>
   dirs (snd (mkdirp fsys cur ss)) = dirs fsys \<union> set (stations cur ss)"
  using mkdirp_made[of fsys cur ss] mkdirp_dirs_upper[of fsys cur ss] mkdirp_dirs_mono[of fsys cur ss]
  by blast

lemma location_of_join:
  assumes "d \<noteq> []" and "plain name"
  shows "location c (d @ CHR ''/'' # name) = location c d @ [name]"
proof -
  have seg: "segments (d @ CHR ''/'' # name) = segments d @ [name]"
    using assms(2) by (simp add: segments_append_slash segments_plain plain_def)
  have lex: "lexical cur (xs @ [name]) = lexical cur xs @ [name]" for cur xs
    using assms(2) by (induction cur xs rule: lexical.induct) (auto simp: plain_def)
  show ?thesis
    unfolding location_def seg lex using start_of_prefix[OF assms(1), of c "CHR ''/'' # name"]
    by simp
qed

lemma saveImage_creates_directory:
  assumes p: "effective_path E (randomUUID E (draws w)) out = d @ CHR ''/'' # name"
    and d: "d \<noteq> []" and name: "plain name"
    and nul: "CHR 0x00 \<notin> set d" "CHR 0x00 \<notin> set name"
    and missing: "\<not> existsSync (cwd E) (fs w) d"
    and tree: "tree_shaped (fs w)" and start: "is_dir (fs w) (start_of (cwd E) d)"
    and may: "list_all (may_hold_dir (fs w)) (stations (start_of (cwd E) d) (segments d))"
    and target: "location (cwd E) (d @ CHR ''/'' # name) \<notin> dirs (fs w)"
                "location (cwd E) (d @ CHR ''/'' # name) \<notin> set (stations (start_of (cwd E) d) (segments d))"
    and nofault: "fault (fs w) OpenWrite (location (cwd E) (d @ CHR ''/'' # name)) = None"
  shows "\<exists>r w'. saveImage E b ob out w = (Inr r, w')
           \<and> imagePath r = d @ CHR ''/'' # name
           \<and> dirs (fs w') = dirs (fs w) \<union> set (stations (start_of (cwd E) d) (segments d))
           \<and> existsSync (cwd E) (fs w') d
           \<and> files (fs w') = (files (fs w))(location (cwd E) (d @ CHR ''/'' # name) \<mapsto> b)"
proof -
  let ?p = "d @ CHR ''/'' # name"
  let ?st = "start_of (cwd E) d"
  let ?m = "mkdirp (fs w) ?st (segments d)"
  let ?fs1 = "snd ?m"
  let ?L = "location (cwd E) d"
  let ?t = "location (cwd E) ?p"
  have t: "?t = ?L @ [name]" by (rule location_of_join[OF d name])
  have notroot: "\<not> (hd d = CHR ''/'' \<and> length d = 1)"
  proof
    assume "hd d = CHR ''/'' \<and> length d = 1"
    then have "d = ''/''" by (cases d) auto
    with missing exists_root show False by simp
  qed
  have dn: "dirname ?p = d"
    unfolding dirname_of_join[OF d name] using notroot by (simp only: if_False)
  have ok: "fst ?m = None" by (rule mkdirp_succeeds[OF may])
  then have m: "?m = (None, ?fs1)" by (metis prod.collapse)
  have mk: "mkdir_recursive (cwd E) (fs w) d = (None, ?fs1)"
    using d nul(1) ok by (auto simp: mkdir_recursive_def split: prod.splits option.splits)
  have wk: "walk ?fs1 ?st (segments d) = Inr ?L" and ld: "is_dir ?fs1 ?L"
    using mkdirp_walk[OF ok start tree] by (simp_all add: location_def)
  have ds: "dirs ?fs1 = dirs (fs w) \<union> set (stations ?st (segments d))"
    by (rule mkdirp_dirs[OF ok])
  have seg: "segments ?p = segments d @ [name]"
    using name by (simp add: segments_append_slash segments_plain plain_def)
  have st: "start_of (cwd E) ?p = ?st" by (rule start_of_prefix[OF d])
  have "walk ?fs1 ?L [name] = Inr (?L @ [name])"
    using ld name by (simp add: plain_def)
  then have "walk ?fs1 ?st (segments ?p) = Inr ?t"
    unfolding seg walk_append wk t by simp
  then have res: "resolve (cwd E) ?fs1 ?p = Inr ?t"
    using nul st by (simp add: resolve_def)
  have nodir: "\<not> is_dir ?fs1 ?t"
    using target ds t by (simp add: is_dir_def)
  have nf: "fault ?fs1 OpenWrite ?t = None"
    using nofault by (simp add: mkdirp_fault)
  let ?fs2 = "?fs1\<lparr>files := (files ?fs1)(?t \<mapsto> b)\<rparr>"
  have wr: "writeFile (cwd E) ?fs1 ?p b = Inr ?fs2"
    by (rule writeFile_succeeds[OF res nodir nf])
  obtain r w' where s: "saveImage E b ob out w = (Inr r, w')" and fsw: "fs w' = ?fs2"
    and ip: "imagePath r = ?p"
    using p dn missing mk wr by (auto simp: saveImage_def Let_def)
  have dd: "dirs (fs w') = dirs (fs w) \<union> set (stations ?st (segments d))"
    using fsw ds by simp
  have "dirs (fs w') = dirs ?fs1" using fsw by simp
  from walk_same_dirs[OF this wk] have wk': "walk (fs w') ?st (segments d) = Inr ?L" .
  have "is_dir (fs w') ?L" using ld fsw by (simp add: is_dir_def)
  from exists_prefix[OF d nul(1) wk' this] have ex: "existsSync (cwd E) (fs w') d" .
  have ff: "files (fs w') = (files (fs w))(?t \<mapsto> b)"
    using fsw by (simp add: mkdirp_files)
  from s ip dd ex ff show ?thesis by blast
qed

section \<open>Round trip through the cache\<close>

lemma example_save_tmp:
  "saveImage example_env [1, 2] True ''/tmp/out.png'' example_world =
     (Inr \<lparr>imageId = ''id-0'', imagePath = ''/tmp/out.png'', url = ''file:///tmp/out.png''\<rparr>,
      example_world
        \<lparr>fs := example_fs\<lparr>files := (files example_fs)([''tmp'', ''out.png''] \<mapsto> [1, 2])\<rparr>,
         imageCache := [''id-0'' \<mapsto> [1, 2]], draws := 1,
         spawned := [''xdg-open /tmp/out.png'']\<rparr>)"
  by (simp add: saveImage_def effective_path_def dirname_def existsSync_def resolve_def
        start_of_def isAbsolute_def is_dir_def is_file_def writeFile_def example_env_def
        example_world_def example_fs_def example_uuid_def open_command_def Let_def)

lemma example_save_default:
  "saveImage example_env [1, 2] False [] example_world =
     (Inr \<lparr>imageId = ''id-0'', imagePath = ''/app/images/id-0.png'',
            url = ''file:///app/images/id-0.png''\<rparr>,
      example_world
        \<lparr>fs := example_fs\<lparr>files := (files example_fs)([''app'', ''images'', ''id-0.png''] \<mapsto> [1, 2])\<rparr>,
         imageCache := [''id-0'' \<mapsto> [1, 2]], draws := 1\<rparr>)"
  by (simp add: saveImage_def effective_path_def imagesDir_def path_join_def normalize_def
        dirname_def existsSync_def resolve_def start_of_def isAbsolute_def is_dir_def is_file_def
        writeFile_def example_env_def example_world_def example_fs_def example_uuid_def
        open_command_def Let_def)

text \<open>
  C1: when \<open>saveImage\<close> returns a record for the bytes \<open>b\<close>, \<open>getImage\<close> on the record's
  identifier, called next, returns exactly \<open>b\<close>, whether an output path was given or not,
  and leaves the state as it is: the answer comes from the cache.
\<close>

theorem save_then_load_roundtrip:
  assumes "saveImage E b openBrowser outputPath w = (Inr r, w')"
  shows "getImage E (imageId r) w' = (Inr b, w')"
proof -
  have "imageCache w' (imageId r) = Some b"
    using saveImage_Inr(1,3)[OF assms] by simp
  then show ?thesis by (simp add: getImage_def)
qed

theorem save_then_load_roundtrip_witness:
  "fst (saveImage example_env [1, 2] True ''/tmp/out.png'' example_world) =
     Inr \<lparr>imageId = ''id-0'', imagePath = ''/tmp/out.png'', url = ''file:///tmp/out.png''\<rparr>
   \<and> fst (getImage example_env ''id-0''
            (snd (saveImage example_env [1, 2] True ''/tmp/out.png'' example_world))) = Inr [1, 2]
   \<and> fst (saveImage example_env [1, 2] False [] example_world) =
       Inr \<lparr>imageId = ''id-0'', imagePath = ''/app/images/id-0.png'',
              url = ''file:///app/images/id-0.png''\<rparr>
   \<and> fst (getImage example_env ''id-0''
            (snd (saveImage example_env [1, 2] False [] example_world))) = Inr [1, 2]"
proof -
  have a: "fst (saveImage example_env [1, 2] True ''/tmp/out.png'' example_world) =
     Inr \<lparr>imageId = ''id-0'', imagePath = ''/tmp/out.png'', url = ''file:///tmp/out.png''\<rparr>"
    by (simp add: example_save_tmp)
  have b: "fst (getImage example_env ''id-0''
            (snd (saveImage example_env [1, 2] True ''/tmp/out.png'' example_world))) = Inr [1, 2]"
    using save_then_load_roundtrip[OF example_save_tmp] by (simp add: example_save_tmp)
  have c: "fst (saveImage example_env [1, 2] False [] example_world) =
       Inr \<lparr>imageId = ''id-0'', imagePath = ''/app/images/id-0.png'',
              url = ''file:///app/images/id-0.png''\<rparr>"
    by (simp add: example_save_default)
  have d: "fst (getImage example_env ''id-0''
            (snd (saveImage example_env [1, 2] False [] example_world))) = Inr [1, 2]"
    using save_then_load_roundtrip[OF example_save_default] by (simp add: example_save_default)
  from a b c d show ?thesis by (intro conjI)
qed

section \<open>Identifiers\<close>

lemma example_uuid_inj: "inj example_uuid"
proof (rule injI)
  fix m n assume "example_uuid m = example_uuid n"
  then have "length (example_uuid m) = length (example_uuid n)" by simp
  then show "m = n" by (simp add: example_uuid_def)
qed

lemma example_save_tmp_again:
  "fst (saveImage example_env [1, 2] True ''/tmp/out.png''
          (snd (saveImage example_env [1, 2] True ''/tmp/out.png'' example_world))) =
     Inr \<lparr>imageId = ''id-00'', imagePath = ''/tmp/out.png'', url = ''file:///tmp/out.png''\<rparr>"
  unfolding example_save_tmp
  by (simp add: saveImage_def effective_path_def dirname_def existsSync_def resolve_def
        start_of_def isAbsolute_def is_dir_def is_file_def writeFile_def example_env_def
        example_world_def example_fs_def example_uuid_def open_command_def Let_def)

text \<open>
  C7: the identifier \<open>saveImage\<close> returns is the value of the next draw of
  \<open>crypto.randomUUID\<close>, whatever the bytes, the path and the earlier saves were; and when
  no two draws give the same value (the collisions of the generator are left out of
  account), two calls of \<open>saveImage\<close> in one process, with anything the process does between
  them, return different identifiers.
\<close>

theorem saves_return_distinct_identifiers:
  assumes "inj (randomUUID E)"
    and "saveImage E b1 ob1 out1 w = (Inr r1, w1)"
    and "reaches E w1 w2"
    and "saveImage E b2 ob2 out2 w2 = (Inr r2, w3)"
  shows "imageId r1 \<noteq> imageId r2 \<and> imageId r1 = randomUUID E (draws w)
           \<and> imageId r2 = randomUUID E (draws w2)"
proof -
  have i1: "imageId r1 = randomUUID E (draws w)" using saveImage_Inr(1)[OF assms(2)] by simp
  have i2: "imageId r2 = randomUUID E (draws w2)" using saveImage_Inr(1)[OF assms(4)] by simp
  have "draws w < draws w1" using saveImage_Inr(4)[OF assms(2)] by simp
  also have "draws w1 \<le> draws w2" using assms(3) by (rule reaches_draws)
  finally have "draws w \<noteq> draws w2" by simp
  with assms(1) have "randomUUID E (draws w) \<noteq> randomUUID E (draws w2)"
    by (simp add: inj_eq)
  with i1 i2 show ?thesis by simp
qed

theorem saves_return_distinct_identifiers_witness:
  "inj (randomUUID example_env)
   \<and> fst (saveImage example_env [1, 2] True ''/tmp/out.png'' example_world) =
       Inr \<lparr>imageId = ''id-0'', imagePath = ''/tmp/out.png'', url = ''file:///tmp/out.png''\<rparr>
   \<and> fst (saveImage example_env [1, 2] True ''/tmp/out.png''
            (snd (saveImage example_env [1, 2] True ''/tmp/out.png'' example_world))) =
       Inr \<lparr>imageId = ''id-00'', imagePath = ''/tmp/out.png'', url = ''file:///tmp/out.png''\<rparr>
   \<and> ''id-0'' \<noteq> ''id-00''"
proof -
  let ?w1 = "snd (saveImage example_env [1, 2] True ''/tmp/out.png'' example_world)"
  let ?r1 = "\<lparr>imageId = ''id-0'', imagePath = ''/tmp/out.png'', url = ''file:///tmp/out.png''\<rparr>"
  let ?r2 = "\<lparr>imageId = ''id-00'', imagePath = ''/tmp/out.png'', url = ''file:///tmp/out.png''\<rparr>"
  have inj: "inj (randomUUID example_env)"
    by (simp add: example_env_def example_uuid_inj)
  have s1: "saveImage example_env [1, 2] True ''/tmp/out.png'' example_world = (Inr ?r1, ?w1)"
    by (simp add: example_save_tmp)
  have s2: "saveImage example_env [1, 2] True ''/tmp/out.png'' ?w1 =
              (Inr ?r2, snd (saveImage example_env [1, 2] True ''/tmp/out.png'' ?w1))"
    using example_save_tmp_again by (metis prod.collapse)
  have "imageId ?r1 \<noteq> imageId ?r2"
    using saves_return_distinct_identifiers[OF inj s1 reaches.here s2] by (rule conjunct1)
  then have d: "''id-0'' \<noteq> ''id-00''" by simp
  have f1: "fst (saveImage example_env [1, 2] True ''/tmp/out.png'' example_world) = Inr ?r1"
    by (simp add: example_save_tmp)
  from inj f1 example_save_tmp_again d show ?thesis by (intro conjI)
qed

section \<open>Opening the saved image\<close>

lemma example_save_tmp_viewer_fails:
  "saveImage (example_env\<lparr>exec_error := \<lambda>_. Some (Error ''spawn ENOENT'')\<rparr>) [1, 2] True
       ''/tmp/out.png'' example_world =
     (Inr \<lparr>imageId = ''id-0'', imagePath = ''/tmp/out.png'', url = ''file:///tmp/out.png''\<rparr>,
      example_world
        \<lparr>fs := example_fs\<lparr>files := (files example_fs)([''tmp'', ''out.png''] \<mapsto> [1, 2])\<rparr>,
         imageCache := [''id-0'' \<mapsto> [1, 2]], draws := 1,
         spawned := [''xdg-open /tmp/out.png'']\<rparr>)"
  by (simp add: saveImage_def effective_path_def dirname_def existsSync_def resolve_def
        start_of_def isAbsolute_def is_dir_def is_file_def writeFile_def example_env_def
        example_world_def example_fs_def example_uuid_def open_command_def Let_def)

lemma saveImage_ignores_exec_error:
  "saveImage (E\<lparr>exec_error := f\<rparr>) b ob out w = saveImage E b ob out w"
  by (simp add: saveImage_def effective_path_def imagesDir_def open_command_def Let_def
           split: prod.splits option.splits sum.splits)

text \<open>
  C8: a call of \<open>saveImage\<close> with \<open>openBrowser\<close> true that returns a record hands the viewer
  command for the saved path to \<open>exec\<close> and returns the same record and state whatever the
  launch will come to; the callback of \<open>exec\<close>, run later, leaves the file system, the
  cache and the record's entry as they are, and when the launch failed it writes the
  error to \<open>console.error\<close> and does nothing else.
\<close>

theorem viewer_failure_is_logged_not_thrown:
  assumes "saveImage E b True out w = (Inr r, w')"
  shows "saveImage (E\<lparr>exec_error := f\<rparr>) b True out w = (Inr r, w')
       \<and> spawned w' = spawned w @ [open_command E (imagePath r)]
       \<and> fs (exec_callback E (open_command E (imagePath r)) w') = fs w'
       \<and> imageCache (exec_callback E (open_command E (imagePath r)) w') = imageCache w'
       \<and> fst (getImage E (imageId r) (exec_callback E (open_command E (imagePath r)) w')) = Inr b
       \<and> (exec_error E (open_command E (imagePath r)) = Some e \<longrightarrow>
            exec_callback E (open_command E (imagePath r)) w' =
              w'\<lparr>console := console w' @ [ConsoleError ''Error opening image:'' e]\<rparr>)
       \<and> (exec_error E (open_command E (imagePath r)) = None \<longrightarrow>
            exec_callback E (open_command E (imagePath r)) w' = w')"
proof -
  let ?c = "open_command E (imagePath r)"
  have same: "saveImage (E\<lparr>exec_error := f\<rparr>) b True out w = (Inr r, w')"
    using assms by (simp add: saveImage_ignores_exec_error)
  have sp: "spawned w' = spawned w @ [?c]"
    using saveImage_Inr(1,7)[OF assms] by simp
  have keep: "fs (exec_callback E ?c w') = fs w'" "imageCache (exec_callback E ?c w') = imageCache w'"
    by (simp_all add: exec_callback_def log_error_def split: option.splits)
  have "imageCache w' (imageId r) = Some b"
    using saveImage_Inr(1,3)[OF assms] by simp
  then have get: "fst (getImage E (imageId r) (exec_callback E ?c w')) = Inr b"
    using keep(2) by (simp add: getImage_def)
  have logged: "exec_error E ?c = Some e \<longrightarrow>
      exec_callback E ?c w' = w'\<lparr>console := console w' @ [ConsoleError ''Error opening image:'' e]\<rparr>"
    by (simp add: exec_callback_def log_error_def)
  have quiet: "exec_error E ?c = None \<longrightarrow> exec_callback E ?c w' = w'"
    by (simp add: exec_callback_def)
  from same sp keep get logged quiet show ?thesis by (intro conjI)
qed

theorem viewer_failure_is_logged_not_thrown_witness:
  "fst (saveImage (example_env\<lparr>exec_error := \<lambda>_. Some (Error ''spawn ENOENT'')\<rparr>) [1, 2] True
          ''/tmp/out.png'' example_world) =
     Inr \<lparr>imageId = ''id-0'', imagePath = ''/tmp/out.png'', url = ''file:///tmp/out.png''\<rparr>
   \<and> fst (saveImage (example_env\<lparr>exec_error := \<lambda>_. None\<rparr>) [1, 2] True
            ''/tmp/out.png'' example_world) =
     Inr \<lparr>imageId = ''id-0'', imagePath = ''/tmp/out.png'', url = ''file:///tmp/out.png''\<rparr>
   \<and> console (exec_callback (example_env\<lparr>exec_error := \<lambda>_. Some (Error ''spawn ENOENT'')\<rparr>)
                ''xdg-open /tmp/out.png''
                (snd (saveImage (example_env\<lparr>exec_error := \<lambda>_. Some (Error ''spawn ENOENT'')\<rparr>)
                        [1, 2] True ''/tmp/out.png'' example_world))) =
     [ConsoleError ''Error opening image:'' (Error ''spawn ENOENT'')]"
proof -
  let ?E = "example_env\<lparr>exec_error := \<lambda>_. Some (Error ''spawn ENOENT'')\<rparr>"
  let ?r = "\<lparr>imageId = ''id-0'', imagePath = ''/tmp/out.png'', url = ''file:///tmp/out.png''\<rparr>"
  let ?w = "snd (saveImage ?E [1, 2] True ''/tmp/out.png'' example_world)"
  have s: "saveImage ?E [1, 2] True ''/tmp/out.png'' example_world = (Inr ?r, ?w)"
    by (simp add: example_save_tmp_viewer_fails)
  have cmd: "open_command ?E (imagePath ?r) = ''xdg-open /tmp/out.png''"
    by (simp add: open_command_def example_env_def)
  have err: "exec_error ?E ''xdg-open /tmp/out.png'' = Some (Error ''spawn ENOENT'')" by simp
  note t = viewer_failure_is_logged_not_thrown[OF s, of "\<lambda>_. None" "Error ''spawn ENOENT''",
      unfolded cmd]
  have a: "fst (saveImage ?E [1, 2] True ''/tmp/out.png'' example_world) = Inr ?r"
    by (simp add: example_save_tmp_viewer_fails)
  have "saveImage (?E\<lparr>exec_error := \<lambda>_. None\<rparr>) [1, 2] True ''/tmp/out.png'' example_world =
          (Inr ?r, ?w)"
    using t by (rule conjunct1)
  then have b: "fst (saveImage (example_env\<lparr>exec_error := \<lambda>_. None\<rparr>) [1, 2] True
                  ''/tmp/out.png'' example_world) = Inr ?r"
    by simp
  have "exec_callback ?E ''xdg-open /tmp/out.png'' ?w =
          ?w\<lparr>console := console ?w @ [ConsoleError ''Error opening image:'' (Error ''spawn ENOENT'')]\<rparr>"
    using t err by blast
  moreover have "console ?w = []"
    unfolding example_save_tmp_viewer_fails by (simp add: example_world_def)
  ultimately have c: "console (exec_callback ?E ''xdg-open /tmp/out.png'' ?w) =
      [ConsoleError ''Error opening image:'' (Error ''spawn ENOENT'')]"
    by simp
  from a b c show ?thesis by (intro conjI)
qed

section \<open>Where the file goes\<close>

text \<open>A save whose path resolves to a location that can be written returns a record.\<close>

lemma saveImage_succeeds:
  assumes "resolve (cwd E) (fs w) (effective_path E (randomUUID E (draws w)) out) = Inr loc"
    and "\<not> is_dir (fs w) loc"
    and "fault (fs w) OpenWrite loc = None"
  shows "\<exists>r w'. saveImage E b ob out w = (Inr r, w')"
proof -
  let ?p = "effective_path E (randomUUID E (draws w)) out"
  have ex: "existsSync (cwd E) (fs w) (dirname ?p)"
    using assms(1) by (rule dirname_exists)
  have "writeFile (cwd E) (fs w) ?p b = Inr ((fs w)\<lparr>files := (files (fs w))(loc \<mapsto> b)\<rparr>)"
    using assms by (rule writeFile_succeeds)
  with ex show ?thesis by (simp add: saveImage_def Let_def)
qed

text \<open>
  C10: the empty string as output path is treated as no output path.  The call behaves
  in every respect as the call with the default path \<open>imagesDir/<identifier>.png\<close> written
  out; when it returns a record, the record's path is that default path and the bytes are
  in the file there; and it does return a record whenever the default path resolves to a
  location that is not a directory and can be written.
\<close>

theorem empty_output_path_means_default:
  "saveImage E b ob [] w =
     saveImage E b ob (path_join (imagesDir E) (randomUUID E (draws w) @ ''.png'')) w
   \<and> (saveImage E b ob [] w = (Inr r, w') \<longrightarrow>
        imagePath r = path_join (path_join (cwd E) ''images'') (imageId r @ ''.png'')
        \<and> (CHR ''/'' \<notin> set (imageId r) \<longrightarrow>
              imagePath r = path_join (cwd E) ''images'' @ ''/'' @ imageId r @ ''.png'')
        \<and> imagePath r \<noteq> []
        \<and> files (fs w') (location (cwd E) (imagePath r)) = Some b)
   \<and> (resolve (cwd E) (fs w) (path_join (imagesDir E) (randomUUID E (draws w) @ ''.png'')) = Inr loc
        \<and> \<not> is_dir (fs w) loc \<and> fault (fs w) OpenWrite loc = None \<longrightarrow>
        (\<exists>r' w''. saveImage E b ob [] w = (Inr r', w'')))"
proof -
  let ?d = "path_join (imagesDir E) (randomUUID E (draws w) @ ''.png'')"
  have ne: "?d \<noteq> []" by (rule path_join_not_Nil)
  have eff: "effective_path E (randomUUID E (draws w)) [] = ?d"
    "effective_path E (randomUUID E (draws w)) ?d = ?d"
    using ne by (simp_all add: effective_path_def)
  have same: "saveImage E b ob [] w = saveImage E b ob ?d w"
    by (simp add: saveImage_def eff)
  have after: "saveImage E b ob [] w = (Inr r, w') \<longrightarrow>
        imagePath r = path_join (path_join (cwd E) ''images'') (imageId r @ ''.png'')
        \<and> (CHR ''/'' \<notin> set (imageId r) \<longrightarrow>
              imagePath r = path_join (cwd E) ''images'' @ ''/'' @ imageId r @ ''.png'')
        \<and> imagePath r \<noteq> []
        \<and> files (fs w') (location (cwd E) (imagePath r)) = Some b"
  proof
    assume s: "saveImage E b ob [] w = (Inr r, w')"
    have "imagePath r = ?d" "imageId r = randomUUID E (draws w)"
      using saveImage_Inr(1)[OF s] eff by simp_all
    then show "imagePath r = path_join (path_join (cwd E) ''images'') (imageId r @ ''.png'')
        \<and> (CHR ''/'' \<notin> set (imageId r) \<longrightarrow>
              imagePath r = path_join (cwd E) ''images'' @ ''/'' @ imageId r @ ''.png'')
        \<and> imagePath r \<noteq> []
        \<and> files (fs w') (location (cwd E) (imagePath r)) = Some b"
      using saveImage_files(1)[OF s] ne default_path_literal[of "imageId r" E]
      by (simp add: imagesDir_def)
  qed
  have can: "resolve (cwd E) (fs w) ?d = Inr loc
        \<and> \<not> is_dir (fs w) loc \<and> fault (fs w) OpenWrite loc = None \<longrightarrow>
        (\<exists>r' w''. saveImage E b ob [] w = (Inr r', w''))"
    using saveImage_succeeds[of E w "[]" loc b ob] eff by auto
  from same after can show ?thesis by (intro conjI)
qed

theorem empty_output_path_means_default_witness:
  "resolve (cwd example_env) (fs example_world) ''/app/images/id-0.png'' =
     Inr [''app'', ''images'', ''id-0.png'']
   \<and> \<not> is_dir (fs example_world) [''app'', ''images'', ''id-0.png'']
   \<and> fault (fs example_world) OpenWrite [''app'', ''images'', ''id-0.png''] = None
   \<and> fst (saveImage example_env [1, 2] False [] example_world) =
       Inr \<lparr>imageId = ''id-0'', imagePath = ''/app/images/id-0.png'',
              url = ''file:///app/images/id-0.png''\<rparr>
   \<and> files (fs (snd (saveImage example_env [1, 2] False [] example_world)))
         (location (cwd example_env) ''/app/images/id-0.png'') = Some [1, 2]
   \<and> saveImage example_env [1, 2] False [] example_world =
       saveImage example_env [1, 2] False ''/app/images/id-0.png'' example_world"
proof -
  let ?r = "\<lparr>imageId = ''id-0'', imagePath = ''/app/images/id-0.png'',
              url = ''file:///app/images/id-0.png''\<rparr>"
  let ?w = "snd (saveImage example_env [1, 2] False [] example_world)"
  have d: "path_join (imagesDir example_env) (randomUUID example_env (draws example_world) @ ''.png'')
             = ''/app/images/id-0.png''"
    by (simp add: imagesDir_def path_join_def normalize_def isAbsolute_def example_env_def
          example_world_def example_uuid_def)
  have h1: "resolve (cwd example_env) (fs example_world) ''/app/images/id-0.png'' =
              Inr [''app'', ''images'', ''id-0.png'']"
    by (simp add: resolve_def start_of_def isAbsolute_def is_dir_def example_env_def
          example_world_def example_fs_def)
  have h2: "\<not> is_dir (fs example_world) [''app'', ''images'', ''id-0.png'']"
    by (simp add: is_dir_def example_world_def example_fs_def)
  have h3: "fault (fs example_world) OpenWrite [''app'', ''images'', ''id-0.png''] = None"
    by (simp add: example_world_def example_fs_def)
  have s: "saveImage example_env [1, 2] False [] example_world = (Inr ?r, ?w)"
    by (simp add: example_save_default)
  note t = empty_output_path_means_default[of example_env "[1, 2]" False example_world ?r ?w
      "[''app'', ''images'', ''id-0.png'']", unfolded d]
  have a: "fst (saveImage example_env [1, 2] False [] example_world) = Inr ?r"
    by (simp add: example_save_default)
  have "files (fs ?w) (location (cwd example_env) (imagePath ?r)) = Some [1, 2]"
    using t s by blast
  then have b: "files (fs ?w) (location (cwd example_env) ''/app/images/id-0.png'') = Some [1, 2]"
    by (simp only: ImageResponse.select_convs)
  have c: "saveImage example_env [1, 2] False [] example_world =
       saveImage example_env [1, 2] False ''/app/images/id-0.png'' example_world"
    using t by (rule conjunct1)
  from h1 h2 h3 a b c show ?thesis by (intro conjI)
qed

lemma example_save_nested:
  "fst (saveImage example_env [1, 2] False ''/tmp/a/b/out.png'' example_world) =
     Inr \<lparr>imageId = ''id-0'', imagePath = ''/tmp/a/b/out.png'',
            url = ''file:///tmp/a/b/out.png''\<rparr>"
  by (simp add: saveImage_def effective_path_def dirname_def existsSync_def resolve_def
        start_of_def isAbsolute_def is_dir_def is_file_def writeFile_def mkdir_recursive_def
        example_env_def example_world_def example_fs_def example_uuid_def Let_def)

lemma example_nested_missing:
  "\<not> existsSync (cwd example_env) (fs example_world) ''/tmp/a/b''"
  by (simp add: existsSync_def resolve_def start_of_def isAbsolute_def is_dir_def is_file_def
        example_env_def example_world_def example_fs_def)

lemma example_in_png:
  "resolve (cwd example_env) (fs example_world) ''/app/in.png'' = Inr [''app'', ''in.png'']"
  "files (fs example_world) [''app'', ''in.png''] = Some [1, 2, 3]"
  "\<not> is_dir (fs example_world) [''app'', ''in.png'']"
  "fault (fs example_world) OpenWrite [''app'', ''in.png''] = None"
  by (simp_all add: resolve_def start_of_def isAbsolute_def is_dir_def example_env_def
        example_world_def example_fs_def)

lemma example_relative_ready:
  "effective_path example_env (randomUUID example_env (draws example_world)) ''new/sub/out.png''
     = ''new/sub'' @ CHR ''/'' # ''out.png''
   \<and> ''new/sub'' \<noteq> [] \<and> plain ''out.png''
   \<and> CHR 0x00 \<notin> set ''new/sub'' \<and> CHR 0x00 \<notin> set ''out.png''
   \<and> \<not> existsSync (cwd example_env) (fs example_world) ''new/sub''
   \<and> tree_shaped (fs example_world)
   \<and> is_dir (fs example_world) (start_of (cwd example_env) ''new/sub'')
   \<and> list_all (may_hold_dir (fs example_world))
         (stations (start_of (cwd example_env) ''new/sub'') (segments ''new/sub''))
   \<and> location (cwd example_env) (''new/sub'' @ CHR ''/'' # ''out.png'')
         \<notin> dirs (fs example_world)
   \<and> location (cwd example_env) (''new/sub'' @ CHR ''/'' # ''out.png'')
         \<notin> set (stations (start_of (cwd example_env) ''new/sub'') (segments ''new/sub''))
   \<and> fault (fs example_world) OpenWrite
         (location (cwd example_env) (''new/sub'' @ CHR ''/'' # ''out.png'')) = None"
  by (simp add: effective_path_def existsSync_def resolve_def start_of_def isAbsolute_def
        is_dir_def is_file_def tree_shaped_def location_def plain_def may_hold_dir_def
        example_env_def example_world_def example_fs_def)

lemma example_relative_places:
  "''new/sub'' @ CHR ''/'' # ''out.png'' = ''new/sub/out.png''"
  "location (cwd example_env) ''new/sub/out.png'' = [''app'', ''new'', ''sub'', ''out.png'']"
  "stations (start_of (cwd example_env) ''new/sub'') (segments ''new/sub'') =
     [[''app'', ''new''], [''app'', ''new'', ''sub'']]"
  "dirs (fs example_world) = {[''app''], [''app'', ''images''], [''tmp'']}"
  "files (fs example_world) = [[''app'', ''in.png''] \<mapsto> [1, 2, 3]]"
  by (simp_all add: start_of_def isAbsolute_def location_def
        example_env_def example_world_def example_fs_def)

lemma example_nested_ready:
  "effective_path example_env (randomUUID example_env (draws example_world)) ''/tmp/a/b/out.png''
     = ''/tmp/a/b'' @ CHR ''/'' # ''out.png''
   \<and> ''/tmp/a/b'' \<noteq> [] \<and> plain ''out.png''
   \<and> CHR 0x00 \<notin> set ''/tmp/a/b'' \<and> CHR 0x00 \<notin> set ''out.png''
   \<and> \<not> existsSync (cwd example_env) (fs example_world) ''/tmp/a/b''
   \<and> tree_shaped (fs example_world)
   \<and> is_dir (fs example_world) (start_of (cwd example_env) ''/tmp/a/b'')
   \<and> list_all (may_hold_dir (fs example_world))
         (stations (start_of (cwd example_env) ''/tmp/a/b'') (segments ''/tmp/a/b''))
   \<and> location (cwd example_env) (''/tmp/a/b'' @ CHR ''/'' # ''out.png'')
         \<notin> dirs (fs example_world)
   \<and> location (cwd example_env) (''/tmp/a/b'' @ CHR ''/'' # ''out.png'')
         \<notin> set (stations (start_of (cwd example_env) ''/tmp/a/b'') (segments ''/tmp/a/b''))
   \<and> fault (fs example_world) OpenWrite
         (location (cwd example_env) (''/tmp/a/b'' @ CHR ''/'' # ''out.png'')) = None"
  by (simp add: effective_path_def existsSync_def resolve_def start_of_def isAbsolute_def
        is_dir_def is_file_def tree_shaped_def location_def plain_def may_hold_dir_def
        example_env_def example_world_def example_fs_def)

lemma example_nested_places:
  "''/tmp/a/b'' @ CHR ''/'' # ''out.png'' = ''/tmp/a/b/out.png''"
  "location (cwd example_env) ''/tmp/a/b/out.png'' = [''tmp'', ''a'', ''b'', ''out.png'']"
  "stations (start_of (cwd example_env) ''/tmp/a/b'') (segments ''/tmp/a/b'') =
     [[''tmp''], [''tmp'', ''a''], [''tmp'', ''a'', ''b'']]"
  by (simp_all add: start_of_def isAbsolute_def location_def)

lemma saveImage_directory_exists:
  assumes "existsSync (cwd E) (fs w) (dirname (effective_path E (randomUUID E (draws w)) out))"
  shows "dirs (fs (snd (saveImage E b ob out w))) = dirs (fs w)"
    and "saveImage E b ob out w = (Inl e, w') \<Longrightarrow>
           writeFile (cwd E) (fs w) (effective_path E (randomUUID E (draws w)) out) b = Inl e"
proof -
  let ?p = "effective_path E (randomUUID E (draws w)) out"
  show "dirs (fs (snd (saveImage E b ob out w))) = dirs (fs w)"
  proof (cases "writeFile (cwd E) (fs w) ?p b")
    case (Inl e')
    with assms show ?thesis by (simp add: saveImage_def Let_def log_error_def)
  next
    case (Inr fs2)
    from writeFile_Inr(1)[OF this] have "dirs fs2 = dirs (fs w)" by simp
    with assms Inr show ?thesis by (simp add: saveImage_def Let_def)
  qed
  show "saveImage E b ob out w = (Inl e, w') \<Longrightarrow> writeFile (cwd E) (fs w) ?p b = Inl e"
    using assms by (auto simp: saveImage_def Let_def split: sum.splits)
qed

text \<open>
  C5: the path \<open>saveImage\<close> writes to is the output path when that is given (not the
  empty string), else \<open>images/<identifier>.png\<close> under the working directory (for an
  identifier without a slash this is the default directory, a slash, the identifier and
  \<open>.png\<close>, letter for letter).  When the
  call returns, the directory of that path exists (so directories that were missing have
  been created), the file at the path holds the bytes, whatever was there before, and no
  other file has changed.  When the directory exists already, no directory is created and
  the only error there can be is the write's.  A file that is already at the path and can
  be written is overwritten: the call returns and the file holds the new bytes.

  A save into a directory that is missing creates it and succeeds.  Let the path be
  \<open>d/name\<close> with a file name \<open>name\<close>, and let \<open>d\<close> not exist, in a file system
  where every directory lies in a directory and the place paths start from is one.  If every
  location on the way along \<open>d\<close> is a directory already or is free and may be created,
  and the file's own location is neither a directory nor one of those locations and may be
  written, then the call returns the path, the directories afterwards are the ones before
  and all the locations on the way, \<open>d\<close> exists, and the only file that has changed is
  the one at the path, which holds the bytes.  This holds for relative paths as for absolute
  ones.  When the directory is missing and cannot be created, the call fails with that
  error and no file has changed.
\<close>

theorem save_path_directories_overwrite:
  "(saveImage E b ob out w = (Inr r, w') \<longrightarrow>
        imagePath r =
          (if out \<noteq> [] then out
           else path_join (path_join (cwd E) ''images'') (imageId r @ ''.png''))
      \<and> (out = [] \<and> CHR ''/'' \<notin> set (imageId r) \<longrightarrow>
            imagePath r = path_join (cwd E) ''images'' @ ''/'' @ imageId r @ ''.png'')
      \<and> url r = ''file://'' @ imagePath r
      \<and> existsSync (cwd E) (fs w') (dirname (imagePath r))
      \<and> files (fs w') (location (cwd E) (imagePath r)) = Some b
      \<and> (\<forall>loc. loc \<noteq> location (cwd E) (imagePath r) \<longrightarrow> files (fs w') loc = files (fs w) loc))
   \<and> (existsSync (cwd E) (fs w) (dirname (effective_path E (randomUUID E (draws w)) out)) \<longrightarrow>
        dirs (fs (snd (saveImage E b ob out w))) = dirs (fs w)
      \<and> (\<forall>e w1. saveImage E b ob out w = (Inl e, w1) \<longrightarrow>
            writeFile (cwd E) (fs w) (effective_path E (randomUUID E (draws w)) out) b = Inl e))
   \<and> (resolve (cwd E) (fs w) (effective_path E (randomUUID E (draws w)) out) = Inr l
        \<and> files (fs w) l = Some old \<and> \<not> is_dir (fs w) l \<and> fault (fs w) OpenWrite l = None \<longrightarrow>
        (\<exists>r2 w2. saveImage E b ob out w = (Inr r2, w2) \<and> files (fs w2) l = Some b))
   \<and> (effective_path E (randomUUID E (draws w)) out = d @ CHR ''/'' # name
        \<and> d \<noteq> [] \<and> plain name \<and> CHR 0x00 \<notin> set d \<and> CHR 0x00 \<notin> set name
        \<and> \<not> existsSync (cwd E) (fs w) d
        \<and> tree_shaped (fs w) \<and> is_dir (fs w) (start_of (cwd E) d)
        \<and> list_all (may_hold_dir (fs w)) (stations (start_of (cwd E) d) (segments d))
        \<and> location (cwd E) (d @ CHR ''/'' # name) \<notin> dirs (fs w)
        \<and> location (cwd E) (d @ CHR ''/'' # name)
              \<notin> set (stations (start_of (cwd E) d) (segments d))
        \<and> fault (fs w) OpenWrite (location (cwd E) (d @ CHR ''/'' # name)) = None \<longrightarrow>
        (\<exists>r4 w4. saveImage E b ob out w = (Inr r4, w4)
           \<and> imagePath r4 = d @ CHR ''/'' # name
           \<and> dirs (fs w4) = dirs (fs w) \<union> set (stations (start_of (cwd E) d) (segments d))
           \<and> existsSync (cwd E) (fs w4) d
           \<and> files (fs w4) = (files (fs w))(location (cwd E) (d @ CHR ''/'' # name) \<mapsto> b)))
   \<and> (\<not> existsSync (cwd E) (fs w) (dirname (effective_path E (randomUUID E (draws w)) out))
        \<and> fst (mkdir_recursive (cwd E) (fs w)
                  (dirname (effective_path E (randomUUID E (draws w)) out))) = Some e5 \<longrightarrow>
        fst (saveImage E b ob out w) = Inl e5
      \<and> files (fs (snd (saveImage E b ob out w))) = files (fs w))"
proof -
  let ?p = "effective_path E (randomUUID E (draws w)) out"
  have first: "saveImage E b ob out w = (Inr r, w') \<longrightarrow>
        imagePath r =
          (if out \<noteq> [] then out
           else path_join (path_join (cwd E) ''images'') (imageId r @ ''.png''))
      \<and> (out = [] \<and> CHR ''/'' \<notin> set (imageId r) \<longrightarrow>
            imagePath r = path_join (cwd E) ''images'' @ ''/'' @ imageId r @ ''.png'')
      \<and> url r = ''file://'' @ imagePath r
      \<and> existsSync (cwd E) (fs w') (dirname (imagePath r))
      \<and> files (fs w') (location (cwd E) (imagePath r)) = Some b
      \<and> (\<forall>loc. loc \<noteq> location (cwd E) (imagePath r) \<longrightarrow> files (fs w') loc = files (fs w) loc)"
  proof
    assume s: "saveImage E b ob out w = (Inr r, w')"
    have p: "imagePath r =
          (if out \<noteq> [] then out
           else path_join (path_join (cwd E) ''images'') (imageId r @ ''.png''))"
      using saveImage_Inr(1)[OF s] by (simp add: effective_path_def imagesDir_def)
    have lit: "out = [] \<and> CHR ''/'' \<notin> set (imageId r) \<longrightarrow>
            imagePath r = path_join (cwd E) ''images'' @ ''/'' @ imageId r @ ''.png''"
      using p default_path_literal[of "imageId r" E] by (simp add: imagesDir_def)
    have u: "url r = ''file://'' @ imagePath r"
      using saveImage_Inr(1)[OF s] by simp
    have d: "existsSync (cwd E) (fs w') (dirname (imagePath r))"
      using saveImage_files(2)[OF s] by (rule dirname_exists)
    have f: "files (fs w') = (files (fs w))(location (cwd E) (imagePath r) \<mapsto> b)"
      by (rule saveImage_files(1)[OF s])
    from p lit u d f show "imagePath r =
          (if out \<noteq> [] then out
           else path_join (path_join (cwd E) ''images'') (imageId r @ ''.png''))
      \<and> (out = [] \<and> CHR ''/'' \<notin> set (imageId r) \<longrightarrow>
            imagePath r = path_join (cwd E) ''images'' @ ''/'' @ imageId r @ ''.png'')
      \<and> url r = ''file://'' @ imagePath r
      \<and> existsSync (cwd E) (fs w') (dirname (imagePath r))
      \<and> files (fs w') (location (cwd E) (imagePath r)) = Some b
      \<and> (\<forall>loc. loc \<noteq> location (cwd E) (imagePath r) \<longrightarrow> files (fs w') loc = files (fs w) loc)"
      by simp
  qed
  have second: "existsSync (cwd E) (fs w) (dirname ?p) \<longrightarrow>
        dirs (fs (snd (saveImage E b ob out w))) = dirs (fs w)
      \<and> (\<forall>e w1. saveImage E b ob out w = (Inl e, w1) \<longrightarrow> writeFile (cwd E) (fs w) ?p b = Inl e)"
    using saveImage_directory_exists[of E w out b ob] by blast
  have third: "resolve (cwd E) (fs w) ?p = Inr l
        \<and> files (fs w) l = Some old \<and> \<not> is_dir (fs w) l \<and> fault (fs w) OpenWrite l = None \<longrightarrow>
        (\<exists>r2 w2. saveImage E b ob out w = (Inr r2, w2) \<and> files (fs w2) l = Some b)"
  proof
    assume h: "resolve (cwd E) (fs w) ?p = Inr l
        \<and> files (fs w) l = Some old \<and> \<not> is_dir (fs w) l \<and> fault (fs w) OpenWrite l = None"
    then obtain r2 w2 where s: "saveImage E b ob out w = (Inr r2, w2)"
      using saveImage_succeeds[of E w out l b ob] by blast
    have "imagePath r2 = ?p" using saveImage_Inr(1)[OF s] by simp
    moreover have "l = location (cwd E) ?p" using h resolve_location by blast
    ultimately have "files (fs w2) l = Some b"
      using saveImage_files(1)[OF s] by simp
    with s show "\<exists>r2 w2. saveImage E b ob out w = (Inr r2, w2) \<and> files (fs w2) l = Some b"
      by blast
  qed
  have fourth: "(effective_path E (randomUUID E (draws w)) out = d @ CHR ''/'' # name
          \<and> d \<noteq> [] \<and> plain name \<and> CHR 0x00 \<notin> set d \<and> CHR 0x00 \<notin> set name
          \<and> \<not> existsSync (cwd E) (fs w) d
          \<and> tree_shaped (fs w) \<and> is_dir (fs w) (start_of (cwd E) d)
          \<and> list_all (may_hold_dir (fs w)) (stations (start_of (cwd E) d) (segments d))
          \<and> location (cwd E) (d @ CHR ''/'' # name) \<notin> dirs (fs w)
          \<and> location (cwd E) (d @ CHR ''/'' # name)
                \<notin> set (stations (start_of (cwd E) d) (segments d))
          \<and> fault (fs w) OpenWrite (location (cwd E) (d @ CHR ''/'' # name)) = None \<longrightarrow>
          (\<exists>r4 w4. saveImage E b ob out w = (Inr r4, w4)
             \<and> imagePath r4 = d @ CHR ''/'' # name
             \<and> dirs (fs w4) = dirs (fs w) \<union> set (stations (start_of (cwd E) d) (segments d))
             \<and> existsSync (cwd E) (fs w4) d
             \<and> files (fs w4) = (files (fs w))(location (cwd E) (d @ CHR ''/'' # name) \<mapsto> b)))"
    using saveImage_creates_directory[of E w out d name b ob] by blast
  have fifth: "(\<not> existsSync (cwd E) (fs w) (dirname (effective_path E (randomUUID E (draws w)) out))
          \<and> fst (mkdir_recursive (cwd E) (fs w)
                    (dirname (effective_path E (randomUUID E (draws w)) out))) = Some e5 \<longrightarrow>
          fst (saveImage E b ob out w) = Inl e5
        \<and> files (fs (snd (saveImage E b ob out w))) = files (fs w))"
  proof
    assume h: "\<not> existsSync (cwd E) (fs w) (dirname ?p)
        \<and> fst (mkdir_recursive (cwd E) (fs w) (dirname ?p)) = Some e5"
    then have f: "fst (saveImage E b ob out w) = Inl e5"
      by (auto simp: saveImage_def Let_def split: prod.splits)
    then have "saveImage E b ob out w = (Inl e5, snd (saveImage E b ob out w))"
      by (metis prod.collapse)
    from saveImage_Inl(1)[OF this] f
    show "fst (saveImage E b ob out w) = Inl e5
      \<and> files (fs (snd (saveImage E b ob out w))) = files (fs w)"
      by simp
  qed
  from first second third fourth fifth show ?thesis by (intro conjI)
qed

theorem save_path_directories_overwrite_witness:
  "\<not> existsSync (cwd example_env) (fs example_world) ''/tmp/a/b''
   \<and> fst (saveImage example_env [1, 2] False ''/tmp/a/b/out.png'' example_world) =
       Inr \<lparr>imageId = ''id-0'', imagePath = ''/tmp/a/b/out.png'',
              url = ''file:///tmp/a/b/out.png''\<rparr>
   \<and> existsSync (cwd example_env)
        (fs (snd (saveImage example_env [1, 2] False ''/tmp/a/b/out.png'' example_world)))
        ''/tmp/a/b''
   \<and> files (fs example_world) [''app'', ''in.png''] = Some [1, 2, 3]
   \<and> (\<exists>r2 w2. saveImage example_env [9] False ''/app/in.png'' example_world = (Inr r2, w2)
                \<and> files (fs w2) [''app'', ''in.png''] = Some [9])
   \<and> \<not> existsSync (cwd example_env) (fs example_world) ''new/sub''
   \<and> tree_shaped (fs example_world)
   \<and> (\<exists>r4 w4. saveImage example_env [1, 2] False ''new/sub/out.png'' example_world = (Inr r4, w4)
          \<and> imagePath r4 = ''new/sub/out.png''
          \<and> dirs (fs w4) = {[''app''], [''app'', ''images''], [''tmp''],
                              [''app'', ''new''], [''app'', ''new'', ''sub'']}
          \<and> existsSync (cwd example_env) (fs w4) ''new/sub''
          \<and> files (fs w4) = [[''app'', ''in.png''] \<mapsto> [1, 2, 3],
                                [''app'', ''new'', ''sub'', ''out.png''] \<mapsto> [1, 2]])
   \<and> stations (start_of (cwd example_env) ''new/sub'') (segments ''new/sub'') =
       [[''app'', ''new''], [''app'', ''new'', ''sub'']]
   \<and> stations (start_of (cwd example_env) ''/tmp/a/b'') (segments ''/tmp/a/b'') =
       [[''tmp''], [''tmp'', ''a''], [''tmp'', ''a'', ''b'']]
   \<and> [''tmp''] \<in> dirs (fs example_world)
   \<and> (\<exists>r4 w4. saveImage example_env [1, 2] False ''/tmp/a/b/out.png'' example_world = (Inr r4, w4)
          \<and> dirs (fs w4) = {[''app''], [''app'', ''images''], [''tmp''],
                              [''tmp'', ''a''], [''tmp'', ''a'', ''b'']}
          \<and> files (fs w4) = [[''app'', ''in.png''] \<mapsto> [1, 2, 3],
                                [''tmp'', ''a'', ''b'', ''out.png''] \<mapsto> [1, 2]])"
proof -
  let ?r = "\<lparr>imageId = ''id-0'', imagePath = ''/tmp/a/b/out.png'',
              url = ''file:///tmp/a/b/out.png''\<rparr>"
  let ?w = "snd (saveImage example_env [1, 2] False ''/tmp/a/b/out.png'' example_world)"
  have s: "saveImage example_env [1, 2] False ''/tmp/a/b/out.png'' example_world = (Inr ?r, ?w)"
    using example_save_nested by (metis prod.collapse)
  have "existsSync (cwd example_env) (fs ?w) (dirname (imagePath ?r))"
    using save_path_directories_overwrite[of example_env "[1, 2]" False "''/tmp/a/b/out.png''"
        example_world ?r ?w] s by blast
  moreover have "dirname (imagePath ?r) = ''/tmp/a/b''"
    by (simp add: dirname_def)
  ultimately have made: "existsSync (cwd example_env) (fs ?w) ''/tmp/a/b''"
    by (simp only:)
  have eff: "effective_path example_env (randomUUID example_env (draws example_world)) ''/app/in.png''
               = ''/app/in.png''"
    by (simp add: effective_path_def)
  have over: "\<exists>r2 w2. saveImage example_env [9] False ''/app/in.png'' example_world = (Inr r2, w2)
                \<and> files (fs w2) [''app'', ''in.png''] = Some [9]"
    using save_path_directories_overwrite[of example_env "[9]" False "''/app/in.png''"
        example_world _ _ "[''app'', ''in.png'']" "[1, 2, 3]", unfolded eff] example_in_png
    by blast
  have rel: "\<exists>r4 w4. saveImage example_env [1, 2] False ''new/sub/out.png'' example_world = (Inr r4, w4)
          \<and> imagePath r4 = ''new/sub/out.png''
          \<and> dirs (fs w4) = {[''app''], [''app'', ''images''], [''tmp''],
                              [''app'', ''new''], [''app'', ''new'', ''sub'']}
          \<and> existsSync (cwd example_env) (fs w4) ''new/sub''
          \<and> files (fs w4) = [[''app'', ''in.png''] \<mapsto> [1, 2, 3],
                                [''app'', ''new'', ''sub'', ''out.png''] \<mapsto> [1, 2]]"
    using save_path_directories_overwrite[where E = example_env and b = "[1, 2]" and ob = False
        and out = "''new/sub/out.png''" and w = example_world and d = "''new/sub''"
        and name = "''out.png''", THEN conjunct2, THEN conjunct2, THEN conjunct2,
        THEN conjunct1, THEN mp, OF example_relative_ready]
    unfolding example_relative_places by auto
  have ready: "\<not> existsSync (cwd example_env) (fs example_world) ''new/sub''"
    "tree_shaped (fs example_world)"
    using example_relative_ready by blast+
  have "\<exists>r4 w4. saveImage example_env [1, 2] False ''/tmp/a/b/out.png'' example_world = (Inr r4, w4)
          \<and> imagePath r4 = ''/tmp/a/b/out.png''
          \<and> dirs (fs w4) = {[''app''], [''app'', ''images''], [''tmp'']}
                \<union> set [[''tmp''], [''tmp'', ''a''], [''tmp'', ''a'', ''b'']]
          \<and> existsSync (cwd example_env) (fs w4) ''/tmp/a/b''
          \<and> files (fs w4) = [[''app'', ''in.png''] \<mapsto> [1, 2, 3],
                                [''tmp'', ''a'', ''b'', ''out.png''] \<mapsto> [1, 2]]"
    using save_path_directories_overwrite[where E = example_env and b = "[1, 2]" and ob = False
        and out = "''/tmp/a/b/out.png''" and w = example_world and d = "''/tmp/a/b''"
        and name = "''out.png''", THEN conjunct2, THEN conjunct2, THEN conjunct2,
        THEN conjunct1, THEN mp, OF example_nested_ready]
    unfolding example_nested_places example_relative_places(4,5) .
  then obtain r4 w4 where
    n1: "saveImage example_env [1, 2] False ''/tmp/a/b/out.png'' example_world = (Inr r4, w4)"
    and n2: "dirs (fs w4) = {[''app''], [''app'', ''images''], [''tmp'']}
                \<union> set [[''tmp''], [''tmp'', ''a''], [''tmp'', ''a'', ''b'']]"
    and n3: "files (fs w4) = [[''app'', ''in.png''] \<mapsto> [1, 2, 3],
                                [''tmp'', ''a'', ''b'', ''out.png''] \<mapsto> [1, 2]]"
    by blast
  have "{[''app''], [''app'', ''images''], [''tmp'']}
          \<union> set [[''tmp''], [''tmp'', ''a''], [''tmp'', ''a'', ''b'']] =
        {[''app''], [''app'', ''images''], [''tmp''], [''tmp'', ''a''], [''tmp'', ''a'', ''b'']}"
    by (simp add: insert_commute)
  with n2 have n2': "dirs (fs w4) =
        {[''app''], [''app'', ''images''], [''tmp''], [''tmp'', ''a''], [''tmp'', ''a'', ''b'']}"
    by (simp only:)
  from n1 n2' n3
  have nested: "\<exists>r4 w4. saveImage example_env [1, 2] False ''/tmp/a/b/out.png'' example_world = (Inr r4, w4)
          \<and> dirs (fs w4) = {[''app''], [''app'', ''images''], [''tmp''],
                              [''tmp'', ''a''], [''tmp'', ''a'', ''b'']}
          \<and> files (fs w4) = [[''app'', ''in.png''] \<mapsto> [1, 2, 3],
                                [''tmp'', ''a'', ''b'', ''out.png''] \<mapsto> [1, 2]]"
    by blast
  have tmp: "[''tmp''] \<in> dirs (fs example_world)"
    by (simp add: example_relative_places(4))
  from example_nested_missing example_save_nested made example_in_png(2) over
    ready rel example_relative_places(3) example_nested_places(3) tmp nested
  show ?thesis by (intro conjI)
qed

section \<open>Looking an image up after the cache is gone\<close>

lemma getImage_miss:
  assumes "imageCache w ident = None"
    and "readFile (cwd E) (fs w) (path_join (imagesDir E) (ident @ ''.png'')) = Inl e"
  shows "getImage E ident w =
           (Inl (Error (''Image '' @ ident @ '' not found'')),
            log_error (''Error retrieving image '' @ ident @ '':'') e w)"
  using assms by (simp add: getImage_def)

text \<open>
  C9: let \<open>saveImage\<close> have written to an output path that was given and that names another
  location than \<open>imagesDir/<identifier>.png\<close> (every path outside the default directory
  does), and let no file have been at that default location before (the identifier is
  fresh).  In any state with the same file system and no cache entry for the identifier, as
  after a restart of the process, \<open>getImage\<close> fails with \<open>Image <identifier> not found\<close>,
  although the file is still at the output path, holds the bytes, and can be read.
\<close>

theorem load_without_cache_misses_explicit_path:
  assumes "saveImage E b ob out w = (Inr r, w1)"
    and "out \<noteq> []"
    and "location (cwd E) out \<noteq> location (cwd E) (path_join (imagesDir E) (imageId r @ ''.png''))"
    and "files (fs w) (location (cwd E) (path_join (imagesDir E) (imageId r @ ''.png''))) = None"
    and "fs w2 = fs w1"
    and "imageCache w2 (imageId r) = None"
  shows "fst (getImage E (imageId r) w2) = Inl (Error (''Image '' @ imageId r @ '' not found''))
       \<and> imageCache (snd (getImage E (imageId r) w2)) (imageId r) = None
       \<and> resolve (cwd E) (fs w2) out = Inr (location (cwd E) out)
       \<and> files (fs w2) (location (cwd E) out) = Some b
       \<and> (fault (fs w2) OpenRead (location (cwd E) out) = None \<longrightarrow>
            readFile (cwd E) (fs w2) out = Inr b)"
proof -
  let ?d = "path_join (imagesDir E) (imageId r @ ''.png'')"
  have p: "imagePath r = out"
    using saveImage_Inr(1)[OF assms(1)] assms(2) by (simp add: effective_path_def)
  have f: "files (fs w2) = (files (fs w))(location (cwd E) out \<mapsto> b)"
    using saveImage_files(1)[OF assms(1)] p assms(5) by simp
  have res: "resolve (cwd E) (fs w2) out = Inr (location (cwd E) out)"
    using saveImage_files(2)[OF assms(1)] p assms(5) by simp
  have nd: "\<not> is_dir (fs w2) (location (cwd E) out)"
  proof -
    let ?fs1 = "if existsSync (cwd E) (fs w) (dirname (effective_path E (randomUUID E (draws w)) out))
                then fs w
                else snd (mkdir_recursive (cwd E) (fs w)
                            (dirname (effective_path E (randomUUID E (draws w)) out)))"
    have wr: "writeFile (cwd E) ?fs1 out b = Inr (fs w1)"
      using saveImage_Inr(2)[OF assms(1)] assms(2) by (simp add: effective_path_def)
    have "\<not> is_dir ?fs1 (location (cwd E) out)" by (rule writeFile_Inr(3)[OF wr])
    moreover have "dirs (fs w1) = dirs ?fs1"
      by (subst writeFile_Inr(1)[OF wr]) simp
    ultimately show ?thesis using assms(5) by (simp add: is_dir_def)
  qed
  have "files (fs w2) (location (cwd E) ?d) = None"
    using f assms(3,4) by simp
  then obtain e where "readFile (cwd E) (fs w2) ?d = Inl e"
    using readFile_absent by blast
  with assms(6) have g: "getImage E (imageId r) w2 =
      (Inl (Error (''Image '' @ imageId r @ '' not found'')),
       log_error (''Error retrieving image '' @ imageId r @ '':'') e w2)"
    by (rule getImage_miss)
  have a: "fst (getImage E (imageId r) w2) = Inl (Error (''Image '' @ imageId r @ '' not found''))"
    using g by simp
  have c: "imageCache (snd (getImage E (imageId r) w2)) (imageId r) = None"
    using g assms(6) by (simp add: log_error_def)
  have there: "files (fs w2) (location (cwd E) out) = Some b" using f by simp
  have rd: "fault (fs w2) OpenRead (location (cwd E) out) = None \<longrightarrow>
            readFile (cwd E) (fs w2) out = Inr b"
    using res nd there by (simp add: readFile_def)
  from a c res there rd show ?thesis by (intro conjI)
qed

theorem load_without_cache_misses_explicit_path_witness:
  "fst (saveImage example_env [1, 2] True ''/tmp/out.png'' example_world) =
     Inr \<lparr>imageId = ''id-0'', imagePath = ''/tmp/out.png'', url = ''file:///tmp/out.png''\<rparr>
   \<and> location (cwd example_env) ''/tmp/out.png'' = [''tmp'', ''out.png'']
   \<and> location (cwd example_env) (path_join (imagesDir example_env) (''id-0'' @ ''.png'')) =
       [''app'', ''images'', ''id-0.png'']
   \<and> files (fs example_world) [''app'', ''images'', ''id-0.png''] = None
   \<and> fst (getImage example_env ''id-0''
            ((snd (saveImage example_env [1, 2] True ''/tmp/out.png'' example_world))
               \<lparr>imageCache := Map.empty\<rparr>)) = Inl (Error ''Image id-0 not found'')
   \<and> readFile (cwd example_env)
        (fs (snd (saveImage example_env [1, 2] True ''/tmp/out.png'' example_world)))
        ''/tmp/out.png'' = Inr [1, 2]"
proof -
  let ?r = "\<lparr>imageId = ''id-0'', imagePath = ''/tmp/out.png'', url = ''file:///tmp/out.png''\<rparr>"
  let ?w1 = "snd (saveImage example_env [1, 2] True ''/tmp/out.png'' example_world)"
  let ?w2 = "?w1\<lparr>imageCache := Map.empty\<rparr>"
  have s: "saveImage example_env [1, 2] True ''/tmp/out.png'' example_world = (Inr ?r, ?w1)"
    by (simp add: example_save_tmp)
  have l1: "location (cwd example_env) ''/tmp/out.png'' = [''tmp'', ''out.png'']"
    by (simp add: location_def start_of_def isAbsolute_def)
  have l2: "location (cwd example_env) (path_join (imagesDir example_env) (''id-0'' @ ''.png'')) =
       [''app'', ''images'', ''id-0.png'']"
    by (simp add: location_def start_of_def isAbsolute_def imagesDir_def path_join_def
          normalize_def example_env_def)
  have none: "files (fs example_world) [''app'', ''images'', ''id-0.png''] = None"
    by (simp add: example_world_def example_fs_def)
  have nofault: "fault (fs ?w2) OpenRead [''tmp'', ''out.png''] = None"
    unfolding example_save_tmp by (simp add: example_world_def example_fs_def)
  have t: "fst (getImage example_env (imageId ?r) ?w2) =
             Inl (Error (''Image '' @ imageId ?r @ '' not found''))
       \<and> imageCache (snd (getImage example_env (imageId ?r) ?w2)) (imageId ?r) = None
       \<and> resolve (cwd example_env) (fs ?w2) ''/tmp/out.png'' =
           Inr (location (cwd example_env) ''/tmp/out.png'')
       \<and> files (fs ?w2) (location (cwd example_env) ''/tmp/out.png'') = Some [1, 2]
       \<and> (fault (fs ?w2) OpenRead (location (cwd example_env) ''/tmp/out.png'') = None \<longrightarrow>
            readFile (cwd example_env) (fs ?w2) ''/tmp/out.png'' = Inr [1, 2])"
  proof (rule load_without_cache_misses_explicit_path[OF s])
    show "''/tmp/out.png'' \<noteq> []" by simp
    show "location (cwd example_env) ''/tmp/out.png'' \<noteq>
          location (cwd example_env) (path_join (imagesDir example_env) (imageId ?r @ ''.png''))"
      using l1 l2 by simp
    show "files (fs example_world)
            (location (cwd example_env) (path_join (imagesDir example_env) (imageId ?r @ ''.png''))) =
          None"
      using l2 none by simp
    show "fs ?w2 = fs ?w1" by simp
    show "imageCache ?w2 (imageId ?r) = None" by simp
  qed
  have g: "fst (getImage example_env ''id-0'' ?w2) = Inl (Error ''Image id-0 not found'')"
    using t by simp
  have "readFile (cwd example_env) (fs ?w2) ''/tmp/out.png'' = Inr [1, 2]"
    using t nofault l1 by simp
  then have rd: "readFile (cwd example_env) (fs ?w1) ''/tmp/out.png'' = Inr [1, 2]"
    by simp
  have a: "fst (saveImage example_env [1, 2] True ''/tmp/out.png'' example_world) = Inr ?r"
    by (simp add: example_save_tmp)
  from a l1 l2 none g rd show ?thesis by (intro conjI)
qed

section \<open>Errors at the tool boundary\<close>

lemma read_images_Inl:
  "read_images E fsys ps acc = Inl e \<Longrightarrow> \<exists>p\<in>set ps. readFile (cwd E) fsys p = Inl e"
  by (induction ps arbitrary: acc) (auto split: sum.splits)

lemma request_of_Inl:
  assumes "request_of E c fsys = Inl e"
  shows "\<exists>p. readFile (cwd E) fsys p = Inl e"
proof (cases c)
  case (Image_variation params)
  with assms show ?thesis by (auto split: sum.splits dest: read_images_Inl)
qed (use assms in \<open>auto split: sum.splits option.splits if_splits\<close>)

lemmas example_eval =
  saveImage_def effective_path_def dirname_def existsSync_def resolve_def start_of_def
  isAbsolute_def is_dir_def is_file_def writeFile_def readFile_def fs_error_def quoted_def
  generateImage_def property_def first_element_def truthy_def or_else_def log_error_def
  node_buffer_from_def base64_decode_def sextet_def
  example_env_def example_world_def example_fs_def example_uuid_def Let_def

lemma example_missing_input:
  "request_of example_env (Inpainting (example_inpainting ''/app/missing.png'')) (fs example_world) =
     Inl (Error (''ENOENT: no such file or directory, open '' @ quoted ''/app/missing.png''))"
  by (simp add: example_eval example_inpainting_def)

lemma example_remote_rejects:
  "fst (generateImage (example_env\<lparr>send := \<lambda>_ _. Rejected (Error ''AccessDeniedException'')\<rparr>)
          body example_world) = Inl (Error ''AccessDeniedException'')"
  by (simp add: example_eval)

lemma example_background_request:
  "request_of example_env (Background_removal example_background_removal) (fs example_world) =
     Inr (backgroundRemoval_body ''AQID'')"
  by (simp add: example_eval example_background_removal_def base64_char_def)

lemma example_generate:
  "generateImage example_env body w = (Inr [104, 105], w\<lparr>requests := requests w @ [body]\<rparr>)"
  by (simp add: example_eval)

lemma example_save_refused:
  "fst (saveImage example_env [104, 105] False ''/tmp/out.png''
          (example_world\<lparr>fs := example_fs_readonly, requests := rs\<rparr>)) =
     Inl (Error (''EACCES: permission denied, open '' @ quoted ''/tmp/out.png''))"
  by (simp add: example_eval example_fs_readonly_def)

text \<open>
  C2: whatever tool is called, in whatever state, the handler returns a result whose
  content is one text item.  When reading an input file fails, the text is the tool's
  error prefix followed by the message of the error \<open>readFile\<close> threw; when the remote
  invocation fails, by the message of the error \<open>generateImage\<close> threw; when saving
  fails, by the message of the error \<open>saveImage\<close> threw; otherwise it is the success text
  with the saved path.  The prefixes are those of the seven \<open>catch\<close> blocks.  The handler
  throws nothing, and the process goes on in the state the handler returns.
\<close>

theorem every_failure_becomes_text:
  "content (fst (call_tool E c w)) =
     (case request_of E c (fs w) of
        Inl e \<Rightarrow> [TextContent (failed_text c @ message e)]
      | Inr body \<Rightarrow>
          (case generateImage E body w of
             (Inl e, w1) \<Rightarrow> [TextContent (failed_text c @ message e)]
           | (Inr imageBytes, w1) \<Rightarrow>
               (case saveImage E imageBytes (open_browser_of c) (output_path_of c) w1 of
                  (Inl e, w2) \<Rightarrow> [TextContent (failed_text c @ message e)]
                | (Inr imageInfo, w2) \<Rightarrow> [TextContent (saved_text c @ imagePath imageInfo)])))
   \<and> (request_of E c (fs w) = Inl e \<longrightarrow>
        content (fst (call_tool E c w)) = [TextContent (failed_text c @ message e)]
        \<and> (\<exists>p. readFile (cwd E) (fs w) p = Inl e))
   \<and> (request_of E c (fs w) = Inr body \<and> fst (generateImage E body w) = Inl e \<longrightarrow>
        content (fst (call_tool E c w)) = [TextContent (failed_text c @ message e)])
   \<and> (request_of E c (fs w) = Inr body \<and> generateImage E body w = (Inr imageBytes, w1)
        \<and> fst (saveImage E imageBytes (open_browser_of c) (output_path_of c) w1) = Inl e \<longrightarrow>
        content (fst (call_tool E c w)) = [TextContent (failed_text c @ message e)])
   \<and> failed_text c =
       (case c of
          Text_to_image _ \<Rightarrow> ''Error occurred while generating image: ''
        | Inpainting _ \<Rightarrow> ''Error occurred during inpainting: ''
        | Outpainting _ \<Rightarrow> ''Error occurred during outpainting: ''
        | Image_variation _ \<Rightarrow> ''Error occurred during image variation: ''
        | Image_conditioning _ \<Rightarrow> ''Error occurred during image conditioning: ''
        | Color_guided_generation _ \<Rightarrow> ''Error occurred during color guided generation: ''
        | Background_removal _ \<Rightarrow> ''Error occurred while removing background: '')"
proof -
  have shape: "content (fst (call_tool E c w)) =
     (case request_of E c (fs w) of
        Inl e \<Rightarrow> [TextContent (failed_text c @ message e)]
      | Inr body \<Rightarrow>
          (case generateImage E body w of
             (Inl e, w1) \<Rightarrow> [TextContent (failed_text c @ message e)]
           | (Inr imageBytes, w1) \<Rightarrow>
               (case saveImage E imageBytes (open_browser_of c) (output_path_of c) w1 of
                  (Inl e, w2) \<Rightarrow> [TextContent (failed_text c @ message e)]
                | (Inr imageInfo, w2) \<Rightarrow> [TextContent (saved_text c @ imagePath imageInfo)])))"
    by (simp add: call_tool_course catch_as_text_def generate_then_save_def text_result_def
             split: sum.splits prod.splits)
  have rd: "request_of E c (fs w) = Inl e \<longrightarrow>
        content (fst (call_tool E c w)) = [TextContent (failed_text c @ message e)]
        \<and> (\<exists>p. readFile (cwd E) (fs w) p = Inl e)"
    using shape request_of_Inl[of E c "fs w" e] by simp
  have gen: "request_of E c (fs w) = Inr body \<and> fst (generateImage E body w) = Inl e \<longrightarrow>
        content (fst (call_tool E c w)) = [TextContent (failed_text c @ message e)]"
    using shape by (cases "generateImage E body w") auto
  have sav: "request_of E c (fs w) = Inr body \<and> generateImage E body w = (Inr imageBytes, w1)
        \<and> fst (saveImage E imageBytes (open_browser_of c) (output_path_of c) w1) = Inl e \<longrightarrow>
        content (fst (call_tool E c w)) = [TextContent (failed_text c @ message e)]"
    using shape
    by (cases "saveImage E imageBytes (open_browser_of c) (output_path_of c) w1") auto
  have pre: "failed_text c =
       (case c of
          Text_to_image _ \<Rightarrow> ''Error occurred while generating image: ''
        | Inpainting _ \<Rightarrow> ''Error occurred during inpainting: ''
        | Outpainting _ \<Rightarrow> ''Error occurred during outpainting: ''
        | Image_variation _ \<Rightarrow> ''Error occurred during image variation: ''
        | Image_conditioning _ \<Rightarrow> ''Error occurred during image conditioning: ''
        | Color_guided_generation _ \<Rightarrow> ''Error occurred during color guided generation: ''
        | Background_removal _ \<Rightarrow> ''Error occurred while removing background: '')"
    by (cases c) simp_all
  from shape rd gen sav pre show ?thesis by (intro conjI)
qed

theorem every_failure_becomes_text_witness:
  "content (fst (call_tool example_env (Inpainting (example_inpainting ''/app/missing.png''))
                  example_world)) =
     [TextContent (''Error occurred during inpainting: ENOENT: no such file or directory, open ''
                   @ quoted ''/app/missing.png'')]
   \<and> readFile (cwd example_env) (fs example_world) ''/app/missing.png'' =
       Inl (Error (''ENOENT: no such file or directory, open '' @ quoted ''/app/missing.png''))
   \<and> content (fst (call_tool
                     (example_env\<lparr>send := \<lambda>_ _. Rejected (Error ''AccessDeniedException'')\<rparr>)
                     (Text_to_image example_text_to_image) example_world)) =
       [TextContent ''Error occurred while generating image: AccessDeniedException'']
   \<and> content (fst (call_tool example_env (Background_removal example_background_removal)
                     (example_world\<lparr>fs := example_fs_readonly\<rparr>))) =
       [TextContent (''Error occurred while removing background: EACCES: permission denied, open ''
                     @ quoted ''/tmp/out.png'')]"
proof -
  let ?e1 = "Error (''ENOENT: no such file or directory, open '' @ quoted ''/app/missing.png'')"
  have "content (fst (call_tool example_env (Inpainting (example_inpainting ''/app/missing.png''))
                        example_world)) =
          [TextContent (failed_text (Inpainting (example_inpainting ''/app/missing.png''))
                        @ message ?e1)]"
    using every_failure_becomes_text[where E = example_env
        and c = "Inpainting (example_inpainting ''/app/missing.png'')" and w = example_world
        and e = ?e1]
      example_missing_input by blast
  then have a: "content (fst (call_tool example_env
                  (Inpainting (example_inpainting ''/app/missing.png'')) example_world)) =
     [TextContent (''Error occurred during inpainting: ENOENT: no such file or directory, open ''
                   @ quoted ''/app/missing.png'')]"
    by simp
  have b: "readFile (cwd example_env) (fs example_world) ''/app/missing.png'' = Inl ?e1"
    by (simp add: example_eval)
  let ?E = "example_env\<lparr>send := \<lambda>_ _. Rejected (Error ''AccessDeniedException'')\<rparr>"
  have q2: "request_of ?E (Text_to_image example_text_to_image) (fs example_world) =
              Inr (textToImage_body example_text_to_image)"
    by simp
  have "content (fst (call_tool ?E (Text_to_image example_text_to_image) example_world)) =
          [TextContent (failed_text (Text_to_image example_text_to_image)
                        @ message (Error ''AccessDeniedException''))]"
    using every_failure_becomes_text[where E = ?E and c = "Text_to_image example_text_to_image"
        and w = example_world and body = "textToImage_body example_text_to_image"
        and e = "Error ''AccessDeniedException''"]
      q2 example_remote_rejects[of "textToImage_body example_text_to_image"] by blast
  then have c: "content (fst (call_tool ?E (Text_to_image example_text_to_image) example_world)) =
       [TextContent ''Error occurred while generating image: AccessDeniedException'']"
    by simp
  let ?w = "example_world\<lparr>fs := example_fs_readonly\<rparr>"
  let ?e3 = "Error (''EACCES: permission denied, open '' @ quoted ''/tmp/out.png'')"
  have req: "request_of example_env (Background_removal example_background_removal) (fs ?w) =
             Inr (backgroundRemoval_body ''AQID'')"
    by (simp add: example_eval example_background_removal_def base64_char_def
          example_fs_readonly_def)
  have gen: "generateImage example_env (backgroundRemoval_body ''AQID'') ?w =
               (Inr [104, 105], ?w\<lparr>requests := requests ?w @ [backgroundRemoval_body ''AQID'']\<rparr>)"
    by (rule example_generate)
  have sv: "fst (saveImage example_env [104, 105]
                   (open_browser_of (Background_removal example_background_removal))
                   (output_path_of (Background_removal example_background_removal))
                   (?w\<lparr>requests := requests ?w @ [backgroundRemoval_body ''AQID'']\<rparr>)) = Inl ?e3"
    using example_save_refused[of "requests example_world @ [backgroundRemoval_body ''AQID'']"]
    by (simp add: example_background_removal_def)
  have "content (fst (call_tool example_env (Background_removal example_background_removal) ?w)) =
          [TextContent (failed_text (Background_removal example_background_removal) @ message ?e3)]"
    using every_failure_becomes_text[where E = example_env
        and c = "Background_removal example_background_removal" and w = ?w
        and body = "backgroundRemoval_body ''AQID''" and e = ?e3 and imageBytes = "[104, 105]"
        and ?w1.0 = "?w\<lparr>requests := requests ?w @ [backgroundRemoval_body ''AQID'']\<rparr>"]
      req gen sv by blast
  then have d: "content (fst (call_tool example_env
                  (Background_removal example_background_removal) ?w)) =
       [TextContent (''Error occurred while removing background: EACCES: permission denied, open ''
                     @ quoted ''/tmp/out.png'')]"
    by simp
  from a b c d show ?thesis by (intro conjI)
qed

section \<open>image_variation with an input that cannot be read\<close>

lemma read_images_first_failure:
  assumes "\<forall>q\<in>set pre. \<exists>buf. readFile (cwd E) fsys q = Inr buf"
    and "readFile (cwd E) fsys p = Inl e"
  shows "read_images E fsys (pre @ p # post) acc = Inl e"
  using assms by (induction pre arbitrary: acc) auto

lemma example_variation_request:
  "read_images example_env (fs example_world) [''/app/in.png''] [] = Inr [''AQID'']"
  by (simp add: example_eval base64_char_def)

lemma example_variation_missing:
  "read_images example_env (fs example_world) [''/app/in.png'', ''/app/missing.png''] [] =
     Inl (Error (''ENOENT: no such file or directory, open '' @ quoted ''/app/missing.png''))"
  by (simp add: example_eval base64_char_def)

text \<open>
  C3, as the code has it: when the read of one of the \<open>image_paths\<close> fails and all reads
  before it succeed, \<open>imageVariation\<close> stops there.  Its result is the text
  \<open>Error occurred during image variation: \<close> followed by the message of that read's error,
  the same form of report as for every other failure; nothing is sent to the remote model,
  no file is written and the cache is left alone: the state changes only by the line
  written to \<open>console.error\<close>.
\<close>

theorem variation_stops_at_first_failing_read:
  assumes "ImageVariationParams.image_paths params = pre @ p # post"
    and "\<forall>q\<in>set pre. \<exists>buf. readFile (cwd E) (fs w) q = Inr buf"
    and "readFile (cwd E) (fs w) p = Inl e"
  shows "imageVariation E params w =
           (text_result (''Error occurred during image variation: '' @ message e),
            w\<lparr>console := console w @ [ConsoleError ''Error in image variation:'' e]\<rparr>)
       \<and> requests (snd (imageVariation E params w)) = requests w
       \<and> fs (snd (imageVariation E params w)) = fs w
       \<and> imageCache (snd (imageVariation E params w)) = imageCache w"
proof -
  have "read_images E (fs w) (ImageVariationParams.image_paths params) [] = Inl e"
    using read_images_first_failure[OF assms(2,3)] assms(1) by simp
  then have "imageVariation E params w =
           (text_result (''Error occurred during image variation: '' @ message e),
            w\<lparr>console := console w @ [ConsoleError ''Error in image variation:'' e]\<rparr>)"
    by (simp add: imageVariation_def imageVariation_try_def catch_as_text_def log_error_def)
  then show ?thesis by simp
qed

theorem variation_stops_at_first_failing_read_witness:
  "readFile (cwd example_env) (fs example_world) ''/app/in.png'' = Inr [1, 2, 3]
   \<and> readFile (cwd example_env) (fs example_world) ''/app/missing.png'' =
       Inl (Error (''ENOENT: no such file or directory, open '' @ quoted ''/app/missing.png''))
   \<and> imageVariation example_env
        (example_image_variation [''/app/in.png'', ''/app/missing.png'']) example_world =
       (text_result (''Error occurred during image variation: ENOENT: no such file or directory, open ''
                     @ quoted ''/app/missing.png''),
        example_world\<lparr>console :=
          [ConsoleError ''Error in image variation:''
             (Error (''ENOENT: no such file or directory, open '' @ quoted ''/app/missing.png''))]\<rparr>)
   \<and> requests (snd (imageVariation example_env
        (example_image_variation [''/app/in.png'', ''/app/missing.png'']) example_world)) = []"
proof -
  let ?e = "Error (''ENOENT: no such file or directory, open '' @ quoted ''/app/missing.png'')"
  let ?params = "example_image_variation [''/app/in.png'', ''/app/missing.png'']"
  have r1: "readFile (cwd example_env) (fs example_world) ''/app/in.png'' = Inr [1, 2, 3]"
    by (simp add: example_eval)
  have r2: "readFile (cwd example_env) (fs example_world) ''/app/missing.png'' = Inl ?e"
    by (simp add: example_eval)
  have paths: "ImageVariationParams.image_paths ?params = [''/app/in.png''] @ ''/app/missing.png'' # []"
    by (simp add: example_image_variation_def)
  have before: "\<forall>q\<in>set [''/app/in.png'']. \<exists>buf. readFile (cwd example_env) (fs example_world) q = Inr buf"
    using r1 by simp
  note t = variation_stops_at_first_failing_read[OF paths before r2]
  have c0: "console example_world = []" "requests example_world = []"
    by (simp_all add: example_world_def)
  have a: "imageVariation example_env ?params example_world =
       (text_result (''Error occurred during image variation: ENOENT: no such file or directory, open ''
                     @ quoted ''/app/missing.png''),
        example_world\<lparr>console := [ConsoleError ''Error in image variation:'' ?e]\<rparr>)"
    using t[THEN conjunct1] c0 by simp
  have b: "requests (snd (imageVariation example_env ?params example_world)) = []"
    using t[THEN conjunct2, THEN conjunct1] c0 by simp
  from r1 r2 a b show ?thesis by (intro conjI)
qed

text \<open>
  The report of the read failure carries no class of its own: a remote invocation that
  fails with the same message gives the very same result.
\<close>

theorem read_failure_reported_like_remote_failure:
  "read_images example_env (fs example_world) [''/app/in.png'', ''/app/missing.png''] [] =
     Inl example_missing_error
   \<and> read_images example_env_rejecting (fs example_world) [''/app/in.png''] [] = Inr [''AQID'']
   \<and> fst (generateImage example_env_rejecting
            (imageVariation_body (example_image_variation [''/app/in.png'']) [''AQID''])
            example_world) = Inl example_missing_error
   \<and> fst (imageVariation example_env
            (example_image_variation [''/app/in.png'', ''/app/missing.png'']) example_world) =
     fst (imageVariation example_env_rejecting
            (example_image_variation [''/app/in.png'']) example_world)"
proof -
  have miss: "read_images example_env (fs example_world) [''/app/in.png'', ''/app/missing.png''] [] =
     Inl example_missing_error"
    unfolding example_missing_error_def by (rule example_variation_missing)
  have g: "fst (generateImage example_env_rejecting body example_world) = Inl example_missing_error"
    for body
    by (simp add: generateImage_def Let_def example_env_rejecting_def)
  have rd: "read_images example_env_rejecting (fs example_world) [''/app/in.png''] [] = Inr [''AQID'']"
    by (simp add: example_eval base64_char_def example_env_rejecting_def)
  have q2: "request_of example_env
               (Image_variation (example_image_variation [''/app/in.png'', ''/app/missing.png'']))
               (fs example_world) = Inl example_missing_error"
    using miss by (simp add: example_image_variation_def del: read_images.simps)
  have left: "fst (imageVariation example_env
            (example_image_variation [''/app/in.png'', ''/app/missing.png'']) example_world) =
        text_result (''Error occurred during image variation: '' @ message example_missing_error)"
    using call_tool_read_failure[OF q2] by simp
  obtain w1 where g1: "generateImage example_env_rejecting
        (imageVariation_body (example_image_variation [''/app/in.png'']) [''AQID'']) example_world =
      (Inl example_missing_error, w1)"
    using g by (metis prod.collapse)
  have q1: "request_of example_env_rejecting
               (Image_variation (example_image_variation [''/app/in.png''])) (fs example_world) =
             Inr (imageVariation_body (example_image_variation [''/app/in.png'']) [''AQID''])"
    using rd by (simp add: example_image_variation_def del: read_images.simps)
  have right: "fst (imageVariation example_env_rejecting
                      (example_image_variation [''/app/in.png'']) example_world) =
        text_result (''Error occurred during image variation: '' @ message example_missing_error)"
    using call_tool_remote_failure[OF q1 g1] by simp
  from miss rd g left right show ?thesis by simp
qed

section \<open>A response without an image\<close>

lemma contains_prefix: "contains (s @ b) s"
proof (cases "s @ b")
  case Nil
  then show ?thesis by simp
next
  case (Cons c cs)
  have "take (length s) (s @ b) = s" by simp
  with Cons show ?thesis by (metis contains.simps(2))
qed

lemma contains_append: "contains b s \<Longrightarrow> contains (a @ b) s"
  by (induction a) auto

lemma generateImage_Inl:
  assumes "generateImage E body w = (Inl e, w1)"
  shows "w1 = w\<lparr>requests := requests w @ [body],
                console := console w @ [ConsoleError ''Error generating image:'' e]\<rparr>"
  using assms by (auto simp: generateImage_def Let_def log_error_def split: sum.splits)

lemma generateImage_Inr:
  assumes "generateImage E body w = (Inr imageBytes, w1)"
    and "send E (length (requests w)) body = Decoded r"
  shows "w1 = w\<lparr>requests := requests w @ [body]\<rparr>"
    and "\<exists>v. or_else (first_element (property r ''images'')) (property r ''image'') = Some v
             \<and> truthy (Some v) \<and> buffer_from_base64 E v = Inr imageBytes"
  using assms
  by (auto simp: generateImage_def Let_def log_error_def
           split: sum.splits reply.splits if_splits option.splits)

text \<open>
  For every decoded response other than \<open>null\<close> in which neither the first element of
  \<open>images\<close> nor \<open>image\<close> is truthy, every tool answers with its error prefix followed by
  \<open>No image data in response\<close>; the request has been sent and two lines have been logged,
  and nothing else has changed: no file is written and the cache gets no entry.
\<close>

lemma missing_image_is_reported:
  assumes "request_of E c (fs w) = Inr body"
    and "send E (length (requests w)) body = Decoded r"
    and "r \<noteq> JNull"
    and "\<not> truthy (first_element (property r ''images''))"
    and "\<not> truthy (property r ''image'')"
  shows "call_tool E c w =
           (text_result (failed_text c @ ''No image data in response''),
            w\<lparr>requests := requests w @ [body],
              console := console w @
                [ConsoleError ''Error generating image:'' (Error ''No image data in response''),
                 ConsoleError (log_label c) (Error ''No image data in response'')]\<rparr>)"
    and "contains (failed_text c @ ''No image data in response'') ''No image data''"
proof -
  have "generateImage E body w =
          (Inl (Error ''No image data in response''),
           log_error ''Error generating image:'' (Error ''No image data in response'')
             (w\<lparr>requests := requests w @ [body]\<rparr>))"
    using assms(2-5) by (simp add: generateImage_def Let_def or_else_def)
  from call_tool_remote_failure[OF assms(1) this]
  show "call_tool E c w =
           (text_result (failed_text c @ ''No image data in response''),
            w\<lparr>requests := requests w @ [body],
              console := console w @
                [ConsoleError ''Error generating image:'' (Error ''No image data in response''),
                 ConsoleError (log_label c) (Error ''No image data in response'')]\<rparr>)"
    by (simp add: log_error_def)
  have "contains (''No image data'' @ '' in response'') ''No image data''"
    by (rule contains_prefix)
  then have "contains ''No image data in response'' ''No image data''" by simp
  then show "contains (failed_text c @ ''No image data in response'') ''No image data''"
    by (rule contains_append)
qed

lemma example_inpainting_request:
  "request_of E (Inpainting (example_inpainting ''/app/in.png'')) (fs example_world) =
     Inr (inpainting_body (example_inpainting ''/app/in.png'') (to_base64 E [1, 2, 3]))"
  if "cwd E = ''/app''"
  using that by (simp add: example_eval example_inpainting_def)

text \<open>
  C4 fails for the body \<open>null\<close>: it has no image field, yet reading \<open>images\<close> of it throws
  a \<open>TypeError\<close> before the check that would throw \<open>No image data in response\<close>, and the
  text the handler returns does not contain \<open>No image data\<close>.
\<close>

theorem null_response_is_not_reported_as_missing_image:
  "send example_env_null 0 (inpainting_body (example_inpainting ''/app/in.png'') ''AQID'') =
     Decoded JNull
   \<and> fst (generateImage example_env_null
            (inpainting_body (example_inpainting ''/app/in.png'') ''AQID'') example_world) =
       Inl (Error (''Cannot read properties of null (reading '' @ quoted ''images'' @ '')''))
   \<and> fst (inpainting example_env_null (example_inpainting ''/app/in.png'') example_world) =
       text_result (''Error occurred during inpainting: Cannot read properties of null (reading ''
                    @ quoted ''images'' @ '')'')
   \<and> \<not> contains (''Error occurred during inpainting: Cannot read properties of null (reading ''
                    @ quoted ''images'' @ '')'') ''No image data''"
proof -
  let ?body = "inpainting_body (example_inpainting ''/app/in.png'') ''AQID''"
  let ?e = "Error (''Cannot read properties of null (reading '' @ quoted ''images'' @ '')'')"
  have s: "send example_env_null 0 ?body = Decoded JNull"
    by (simp add: example_env_null_def)
  have g: "fst (generateImage example_env_null ?body example_world) = Inl ?e"
    by (simp add: generateImage_def Let_def example_env_null_def)
  then obtain w1 where g1: "generateImage example_env_null ?body example_world = (Inl ?e, w1)"
    by (metis prod.collapse)
  have "cwd example_env_null = ''/app''" "to_base64 example_env_null [1, 2, 3] = ''AQID''"
    by (simp_all add: example_env_null_def example_env_def base64_char_def)
  with example_inpainting_request[of example_env_null]
  have q: "request_of example_env_null (Inpainting (example_inpainting ''/app/in.png''))
             (fs example_world) = Inr ?body"
    by simp
  have h: "fst (inpainting example_env_null (example_inpainting ''/app/in.png'') example_world) =
       text_result (''Error occurred during inpainting: Cannot read properties of null (reading ''
                    @ quoted ''images'' @ '')'')"
    using call_tool_remote_failure[OF q g1] by simp
  have n: "\<not> contains (''Error occurred during inpainting: Cannot read properties of null (reading ''
                    @ quoted ''images'' @ '')'') ''No image data''"
    by (simp add: quoted_def)
  from s g h n show ?thesis by (intro conjI)
qed

section \<open>One image for each response\<close>










end
